theory Spec2Isabelle
  imports Main "HOL-Library.AList" "HOL-Library.Multiset"
begin

section \<open>The tierkreis runtime client (frontend/runtime\_client.py)\<close>

text \<open>
  A shallow embedding of \<^verbatim>\<open>src/tierkreis/frontend/runtime_client.py\<close>.
  Python objects become records, exceptions become the left summand of a result,
  the mutable stub cache, the channel bookkeeping and the remote runtime become
  explicit state. Leading underscores of the Python names are dropped
  (\<^verbatim>\<open>_stub_gen\<close> is \<open>stub_gen\<close>, \<^verbatim>\<open>_stubs\<close> is \<open>stubs\<close>).

  Modelled are the stub cache of \<^verbatim>\<open>RuntimeClient\<close>, its methods \<^verbatim>\<open>start_task\<close>,
  \<^verbatim>\<open>list_tasks\<close>, \<^verbatim>\<open>await_task\<close> and \<^verbatim>\<open>run_graph\<close>, the function
  \<^verbatim>\<open>signature_from_proto\<close>, and the handler that \<^verbatim>\<open>with_runtime_client\<close> returns.
  What these import from other modules of the package (the conversions between native
  values, typed values and wire messages) and from libraries (betterproto, grpclib,
  keyring) is a parameter or is modelled from the library's documented behaviour; each
  such place says so.
\<close>

subsection \<open>Exceptions\<close>

text \<open>
  The exceptions the client module raises or lets through. \<open>'v\<close> is the type of the
  native input values (\<^verbatim>\<open>Any\<close>), \<open>'m\<close> the type of wire messages.
  \<open>InputConversionError\<close> keeps both dataclass fields; \<open>TierkreisTypeErrors e\<close>
  stands for \<^verbatim>\<open>TierkreisTypeErrors.from_proto(e)\<close>; \<open>GRPCError\<close> is a failure of
  the transport inside a stub call; \<open>ValueError\<close> is the failed unpacking of a
  sequence of the wrong length.
\<close>

datatype ('v, 'm) error =
    InputConversionError string 'v
  | TierkreisTypeErrors 'm
  | RuntimeError string
  | AssertionError
  | KeyError string
  | ValueError
  | GRPCError string

subsection \<open>Computations of the client: state and exceptions\<close>

text \<open>
  A coroutine of the client is a function from the state to a result and the new state.
  \<open>bind_io\<close> is sequencing (\<^verbatim>\<open>x = await m; ...\<close>): an exception of the first
  part skips the rest and keeps the state reached so far.
\<close>

type_synonym ('a, 's, 'e) io = "'s \<Rightarrow> ('e + 'a) \<times> 's"

definition return_io :: "'a \<Rightarrow> ('a, 's, 'e) io" where
  "return_io x s = (Inr x, s)"

definition raise_io :: "'e \<Rightarrow> ('a, 's, 'e) io" where
  "raise_io e s = (Inl e, s)"

definition bind_io :: "('a, 's, 'e) io \<Rightarrow> ('a \<Rightarrow> ('b, 's, 'e) io) \<Rightarrow> ('b, 's, 'e) io" where
  "bind_io m f s = (case m s of (Inl e, s1) \<Rightarrow> (Inl e, s1) | (Inr x, s1) \<Rightarrow> f x s1)"

subsection \<open>Channels and the outbound-request hook\<close>

text \<open>
  \<open>send_request\<close> is grpclib's \<^verbatim>\<open>SendRequest\<close> event: its \<^verbatim>\<open>metadata\<close> is a
  mutable mapping that a listener may write to. A listener is a callback on the event;
  mutating the event in place is returning the changed event. A channel records the
  address it was built for and the listeners registered on it with \<^verbatim>\<open>listen\<close>;
  \<open>chan_id\<close> is the identity of the object. In every function modelled here a
  channel is changed only before it is handed on, so channels are passed by value.
\<close>

record send_request =
  metadata :: "string \<rightharpoonup> string"

record channel =
  chan_id :: nat
  host :: string
  port :: int
  listeners :: "(send_request \<Rightarrow> send_request) list"

definition listen :: "channel \<Rightarrow> (send_request \<Rightarrow> send_request) \<Rightarrow> channel" where
  "listen ch callback_fn = ch\<lparr>listeners := listeners ch @ [callback_fn]\<rparr>"

text \<open>The event as the listeners of a channel leave it, run in registration order.\<close>

definition dispatch :: "channel \<Rightarrow> send_request \<Rightarrow> send_request" where
  "dispatch ch event = foldl (\<lambda>ev l. l ev) event (listeners ch)"

text \<open>\<^verbatim>\<open>_gen_auth_injector(login, pwd)\<close> returns the closure \<^verbatim>\<open>_inject_auth\<close>.\<close>

definition gen_auth_injector :: "string \<Rightarrow> string \<Rightarrow> send_request \<Rightarrow> send_request" where
  "gen_auth_injector login pwd event =
     event\<lparr>metadata := ((metadata event)(''token'' \<mapsto> login))(''key'' \<mapsto> pwd)\<rparr>"

subsection \<open>The client object and its stub cache\<close>

datatype stub_t = SignatureStub | RuntimeStub | TypeInferenceStub

text \<open>
  A stub object: its class, the channel it was built on, and \<open>stub_oid\<close>, the identity of
  the object (two stubs built by two constructor calls differ in it).
\<close>

record service_stub =
  stub_class :: stub_t
  stub_channel :: channel
  stub_oid :: nat

text \<open>
  \<^verbatim>\<open>RuntimeClient\<close>: \<open>client_channel\<close> is \<^verbatim>\<open>self._channel\<close>, \<open>stubs\<close> is
  \<^verbatim>\<open>self._stubs\<close>; \<open>constructed\<close> counts the stub constructor calls made so far and
  gives the next stub its identity.
\<close>

record runtime_client =
  client_channel :: channel
  stubs :: "string \<rightharpoonup> service_stub"
  constructed :: nat

definition RuntimeClient :: "channel \<Rightarrow> runtime_client" where
  "RuntimeClient ch = \<lparr>client_channel = ch, stubs = Map.empty, constructed = 0\<rparr>"

text \<open>\<^verbatim>\<open>stub_t(self._channel)\<close>\<close>

definition new_stub :: "stub_t \<Rightarrow> runtime_client \<Rightarrow> service_stub" where
  "new_stub t c = \<lparr>stub_class = t, stub_channel = client_channel c, stub_oid = constructed c\<rparr>"

text \<open>
  \<^verbatim>\<open>_stub_gen\<close>. The stub classes are unrelated siblings, so \<^verbatim>\<open>isinstance\<close> is
  equality of the class.
\<close>

definition stub_gen ::
  "string \<Rightarrow> stub_t \<Rightarrow> runtime_client \<Rightarrow> (('v, 'm) error + service_stub) \<times> runtime_client" where
  "stub_gen key t c =
     (let c1 = (if stubs c key = None
                then c\<lparr>stubs := (stubs c)(key \<mapsto> new_stub t c), constructed := Suc (constructed c)\<rparr>
                else c)
      in case stubs c1 key of
           None \<Rightarrow> (Inl (KeyError key), c1)
         | Some stub \<Rightarrow>
             if stub_class stub = t then (Inr stub, c1) else (Inl AssertionError, c1))"

definition signature_stub :: "runtime_client \<Rightarrow> (('v, 'm) error + service_stub) \<times> runtime_client" where
  "signature_stub = stub_gen ''signature'' SignatureStub"

definition runtime_stub :: "runtime_client \<Rightarrow> (('v, 'm) error + service_stub) \<times> runtime_client" where
  "runtime_stub = stub_gen ''runtime'' RuntimeStub"

definition type_stub :: "runtime_client \<Rightarrow> (('v, 'm) error + service_stub) \<times> runtime_client" where
  "type_stub = stub_gen ''type'' TypeInferenceStub"

text \<open>The cache after a sequence of stub accesses, whatever each of them returned.\<close>

fun stub_accesses :: "(string \<times> stub_t) list \<Rightarrow> runtime_client \<Rightarrow> runtime_client" where
  "stub_accesses [] c = c"
| "stub_accesses ((key, t) # rest) c =
     stub_accesses rest (snd (stub_gen key t c :: ((unit, unit) error + service_stub) \<times> runtime_client))"

subsection \<open>Wire messages and betterproto's one-of groups\<close>

text \<open>
  The generated message classes are not part of the sources; the fields below are the
  ones the client reads. A one-of group of a message is either unset or holds the name
  of the field that is set together with that field's value.
  \<open>which_one_of\<close> is \<^verbatim>\<open>betterproto.which_one_of(message, group)\<close>, a library function:
  it returns the pair \<^verbatim>\<open>("", None)\<close> when no field of the group is set, and the
  field's name and value otherwise.
\<close>

definition which_one_of :: "(string \<times> 'a) option \<Rightarrow> string \<times> 'a option" where
  "which_one_of grp =
     (case grp of
        None \<Rightarrow> ('''', None)
      | Some (field_name, val) \<Rightarrow>
          if field_name = '''' then ('''', None) else (field_name, Some val))"

text \<open>
  \<^verbatim>\<open>RunTaskResponse\<close>: the group \<^verbatim>\<open>result\<close> with the fields \<^verbatim>\<open>task_id\<close> and
  \<^verbatim>\<open>type_errors\<close>. \<open>result_current\<close> is the name of the field that is set;
  \<open>resp_task_id\<close> and \<open>resp_type_errors\<close> are what reading the two attributes gives.
\<close>

record 'm run_task_response =
  result_current :: "string option"
  resp_task_id :: string
  resp_type_errors :: 'm

definition result_group :: "'m run_task_response \<Rightarrow> (string \<times> (string + 'm)) option" where
  "result_group decoded =
     (case result_current decoded of
        None \<Rightarrow> None
      | Some field_name \<Rightarrow>
          Some (field_name,
                if field_name = ''task_id'' then Inl (resp_task_id decoded)
                else Inr (resp_type_errors decoded)))"

text \<open>
  \<^verbatim>\<open>Task\<close>: the field \<^verbatim>\<open>id\<close> and the one-of group \<^verbatim>\<open>status\<close>. A value of the
  group is a wire message.
\<close>

record 'm task =
  task_msg_id :: string
  status :: "(string \<times> 'm) option"

datatype 'm request =
    RunTaskRequest 'm 'm
  | ListTasksRequest
  | AwaitTaskRequest string

datatype task_handle = TaskHandle (task_id: string)

subsection \<open>The world outside the client\<close>

text \<open>
  \<open>opened\<close> lists the addresses channels were opened to, \<open>closed\<close> the channels closed
  again, \<open>sent\<close> every request that went out (the channel, the metadata it left with,
  the request), \<open>server_state\<close> is the state of the remote runtime.
\<close>

record ('m, 'ss) world =
  opened :: "(string \<times> int) list"
  closed :: "nat list"
  sent :: "(nat \<times> (string \<rightharpoonup> string) \<times> 'm request) list"
  server_state :: 'ss

text \<open>
  What the module imports from the rest of the package and from the remote runtime,
  taken as parameters:
  \<open>from_python\<close> is \<^verbatim>\<open>TierkreisValue.from_python\<close> (\<open>None\<close> when it raises
  \<^verbatim>\<open>IncompatiblePyType\<close>), \<open>graph_to_proto\<close> is \<^verbatim>\<open>graph.to_proto()\<close>,
  \<open>to_proto_dict\<close> is \<^verbatim>\<open>pg.StructValue(map=StructValue(inputs).to_proto_dict())\<close>,
  \<open>struct_map\<close> is the attribute \<^verbatim>\<open>.map\<close> of a wire struct,
  \<open>from_proto_dict\<close> is \<^verbatim>\<open>StructValue.from_proto_dict(m).values\<close>,
  \<open>py_str\<close> is how an f-string renders a wire message.
  The three \<open>_rpc\<close> fields are the remote runtime behind the transport: given the
  metadata and the arguments of a request and the server's state they give the reply
  (\<open>Inl\<close>: the call fails in the transport) and the server's new state.
\<close>

record ('v, 'tv, 'g, 'm, 'ss) env =
  from_python :: "'v \<Rightarrow> 'tv option"
  graph_to_proto :: "'g \<Rightarrow> 'm"
  to_proto_dict :: "(string \<times> 'tv) list \<Rightarrow> 'm"
  struct_map :: "'m \<Rightarrow> 'm"
  from_proto_dict :: "'m \<Rightarrow> (string \<times> 'tv) list"
  py_str :: "'m \<Rightarrow> string"
  run_task_rpc :: "(string \<rightharpoonup> string) \<Rightarrow> 'm \<Rightarrow> 'm \<Rightarrow> 'ss \<Rightarrow> (string + 'm run_task_response) \<times> 'ss"
  list_tasks_rpc :: "(string \<rightharpoonup> string) \<Rightarrow> 'ss \<Rightarrow> (string + 'm task list) \<times> 'ss"
  await_task_rpc :: "(string \<rightharpoonup> string) \<Rightarrow> string \<Rightarrow> 'ss \<Rightarrow> (string + 'm task) \<times> 'ss"

text \<open>
  The metadata a request leaves with on a channel: the \<^verbatim>\<open>SendRequest\<close> event starts
  with empty metadata and passes the listeners of the channel.
\<close>

definition request_metadata :: "channel \<Rightarrow> (string \<rightharpoonup> string)" where
  "request_metadata ch = metadata (dispatch ch \<lparr>metadata = Map.empty\<rparr>)"

text \<open>
  A call of a stub method: the request goes out on the stub's channel with the metadata
  the listeners gave it, and the server's reply comes back or the transport fails.
\<close>

definition unary_call ::
  "service_stub \<Rightarrow> 'm request \<Rightarrow> ((string \<rightharpoonup> string) \<Rightarrow> 'ss \<Rightarrow> (string + 'r) \<times> 'ss) \<Rightarrow>
     ('r, ('m, 'ss) world, ('v, 'm) error) io" where
  "unary_call stub rq handler w =
     (let md = request_metadata (stub_channel stub);
          reply = handler md (server_state w);
          w1 = w\<lparr>sent := sent w @ [(chan_id (stub_channel stub), md, rq)],
                 server_state := snd reply\<rparr>
      in case fst reply of
           Inl msg \<Rightarrow> (Inl (GRPCError msg), w1)
         | Inr r \<Rightarrow> (Inr r, w1))"

text \<open>A method of the client runs on the pair of the client object and the world.\<close>

definition on_client ::
  "('a, runtime_client, 'e) io \<Rightarrow> ('a, runtime_client \<times> 'w, 'e) io" where
  "on_client m s = (case m (fst s) of (r, c1) \<Rightarrow> (r, (c1, snd s)))"

definition on_world :: "('a, 'w, 'e) io \<Rightarrow> ('a, runtime_client \<times> 'w, 'e) io" where
  "on_world m s = (case m (snd s) of (r, w1) \<Rightarrow> (r, (fst s, w1)))"

subsection \<open>start\_task\<close>

text \<open>
  The conversion loop of \<^verbatim>\<open>start_task\<close>: \<open>inputs\<close> is the dictionary built so far,
  in insertion order; \<^verbatim>\<open>inputs[key] = ...\<close> is \<open>AList.update\<close>.
\<close>

fun convert_inputs ::
  "('v \<Rightarrow> 'tv option) \<Rightarrow> (string \<times> 'v) list \<Rightarrow> (string \<times> 'tv) list \<Rightarrow>
     ('v, 'm) error + (string \<times> 'tv) list" where
  "convert_inputs conv [] inputs = Inr inputs"
| "convert_inputs conv ((key, val) # rest) inputs =
     (case conv val of
        None \<Rightarrow> Inl (InputConversionError key val)
      | Some tv \<Rightarrow> convert_inputs conv rest (AList.update key tv inputs))"

definition start_task ::
  "('v, 'tv, 'g, 'm, 'ss) env \<Rightarrow> 'g \<Rightarrow> (string \<times> 'v) list \<Rightarrow>
     (task_handle, runtime_client \<times> ('m, 'ss) world, ('v, 'm) error) io" where
  "start_task e graph py_inputs =
     (case convert_inputs (from_python e) py_inputs [] of
        Inl err \<Rightarrow> raise_io err
      | Inr inputs \<Rightarrow>
          bind_io (on_client runtime_stub) (\<lambda>stub.
          bind_io (on_world (unary_call stub
                      (RunTaskRequest (graph_to_proto e graph) (to_proto_dict e inputs))
                      (\<lambda>md. run_task_rpc e md (graph_to_proto e graph) (to_proto_dict e inputs))))
            (\<lambda>decoded.
               let name = fst (which_one_of (result_group decoded))
               in if name = ''task_id'' then return_io (TaskHandle (resp_task_id decoded))
                  else raise_io (TierkreisTypeErrors (resp_type_errors decoded)))))"

subsection \<open>list\_tasks\<close>

text \<open>
  The values \<^verbatim>\<open>status_name\<close> ranges over, and the two Python operators of the test
  \<^verbatim>\<open>status_name is (None or "")\<close>. \<^verbatim>\<open>a or b\<close> is \<^verbatim>\<open>a\<close> when \<^verbatim>\<open>a\<close> is truthy and
  \<^verbatim>\<open>b\<close> otherwise. \<^verbatim>\<open>is\<close> is object identity: \<^verbatim>\<open>None\<close> is one object, CPython
  keeps one object for the empty string, and strings of different contents are
  different objects. The right operand of the only \<^verbatim>\<open>is\<close> of the module is the empty
  string, and there identity is equality of the values.
\<close>

datatype pyval = PyNone | PyStr string

fun truthy :: "pyval \<Rightarrow> bool" where
  "truthy PyNone = False"
| "truthy (PyStr s) = (s \<noteq> '''')"

definition py_or :: "pyval \<Rightarrow> pyval \<Rightarrow> pyval" where
  "py_or a b = (if truthy a then a else b)"

definition py_is :: "pyval \<Rightarrow> pyval \<Rightarrow> bool" where
  "py_is a b = (a = b)"

text \<open>
  The body of the loop of \<^verbatim>\<open>list_tasks\<close> up to the assignment: the label of one
  task.
\<close>

definition status_label :: "'m task \<Rightarrow> pyval" where
  "status_label t =
     (let status_name = PyStr (fst (which_one_of (status t)))
      in if py_is status_name (py_or PyNone (PyStr '''')) then PyStr ''running''
         else status_name)"

text \<open>The loop; \<open>result\<close> is the dictionary in insertion order.\<close>

fun list_tasks_loop ::
  "'m task list \<Rightarrow> (task_handle \<times> pyval) list \<Rightarrow> (task_handle \<times> pyval) list" where
  "list_tasks_loop [] result = result"
| "list_tasks_loop (t # rest) result =
     list_tasks_loop rest (AList.update (TaskHandle (task_msg_id t)) (status_label t) result)"

definition list_tasks ::
  "('v, 'tv, 'g, 'm, 'ss) env \<Rightarrow>
     ((task_handle \<times> pyval) list, runtime_client \<times> ('m, 'ss) world, ('v, 'm) error) io" where
  "list_tasks e =
     bind_io (on_client runtime_stub) (\<lambda>stub.
     bind_io (on_world (unary_call stub ListTasksRequest (list_tasks_rpc e)))
       (\<lambda>decoded. return_io (list_tasks_loop decoded [])))"

subsection \<open>await\_task and run\_graph\<close>

text \<open>How the f-string renders \<^verbatim>\<open>status_value\<close>, which may be \<^verbatim>\<open>None\<close>.\<close>

definition format_value :: "('v, 'tv, 'g, 'm, 'ss) env \<Rightarrow> 'm option \<Rightarrow> string" where
  "format_value e status_value =
     (case status_value of None \<Rightarrow> ''None'' | Some x \<Rightarrow> py_str e x)"

definition failure_message :: "('v, 'tv, 'g, 'm, 'ss) env \<Rightarrow> 'm option \<Rightarrow> string" where
  "failure_message e status_value =
     ''Task execution failed with message:'' @ [CHR 0x0A] @ format_value e status_value"

definition await_task ::
  "('v, 'tv, 'g, 'm, 'ss) env \<Rightarrow> task_handle \<Rightarrow>
     ((string \<times> 'tv) list, runtime_client \<times> ('m, 'ss) world, ('v, 'm) error) io" where
  "await_task e task =
     bind_io (on_client runtime_stub) (\<lambda>stub.
     bind_io (on_world (unary_call stub (AwaitTaskRequest (task_id task))
                 (\<lambda>md. await_task_rpc e md (task_id task))))
       (\<lambda>decoded.
          case which_one_of (status decoded) of
            (status_name, status_value) \<Rightarrow>
              if status_name \<noteq> ''success''
              then raise_io (RuntimeError (failure_message e status_value))
              else (case status_value of
                      None \<Rightarrow> raise_io AssertionError
                    | Some sv \<Rightarrow> return_io (from_proto_dict e (struct_map e sv)))))"

definition run_graph ::
  "('v, 'tv, 'g, 'm, 'ss) env \<Rightarrow> 'g \<Rightarrow> (string \<times> 'v) list \<Rightarrow>
     ((string \<times> 'tv) list, runtime_client \<times> ('m, 'ss) world, ('v, 'm) error) io" where
  "run_graph e graph py_inputs =
     bind_io (start_task e graph py_inputs) (\<lambda>task.
     bind_io (await_task e task) (\<lambda>outputs.
     return_io outputs))"

text \<open>
  The composition as the specification words it: \<^verbatim>\<open>start_task\<close>, and when it returned
  a handle \<^verbatim>\<open>await_task\<close> on that handle, once; a failure of either stage is the
  outcome.
\<close>

definition run_graph_spec ::
  "('v, 'tv, 'g, 'm, 'ss) env \<Rightarrow> 'g \<Rightarrow> (string \<times> 'v) list \<Rightarrow>
     ((string \<times> 'tv) list, runtime_client \<times> ('m, 'ss) world, ('v, 'm) error) io" where
  "run_graph_spec e graph py_inputs s =
     (case start_task e graph py_inputs s of
        (Inl err, s1) \<Rightarrow> (Inl err, s1)
      | (Inr handle, s1) \<Rightarrow> await_task e handle s1)"

subsection \<open>The worker callback authenticator\<close>

text \<open>
  \<^verbatim>\<open>worker.callback\<close> is the address a worker calls back to, unknown until a request
  brought it. An argument of a wrapped handler is the client the wrapper builds or one
  of the caller's own arguments.
\<close>

record worker =
  callback :: "(string \<times> int) option"

datatype 'a arg = ClientArg runtime_client | Arg 'a

text \<open>\<^verbatim>\<open>Channel(host, port)\<close> and the exit of \<^verbatim>\<open>async with\<close>.\<close>

definition open_channel :: "string \<Rightarrow> int \<Rightarrow> ('m, 'ss) world \<Rightarrow> channel \<times> ('m, 'ss) world" where
  "open_channel h p w =
     (\<lparr>chan_id = length (opened w), host = h, port = p, listeners = []\<rparr>,
      w\<lparr>opened := opened w @ [(h, p)]\<rparr>)"

definition close_channel :: "channel \<Rightarrow> ('m, 'ss) world \<Rightarrow> ('m, 'ss) world" where
  "close_channel ch w = w\<lparr>closed := closed w @ [chan_id ch]\<rparr>"

text \<open>
  \<^verbatim>\<open>wrapped_func\<close> of \<^verbatim>\<open>with_runtime_client(worker)\<close>. \<open>wk\<close> is the worker object as
  it is when the wrapped handler is called, \<open>get_password\<close> is
  \<^verbatim>\<open>keyring.get_password\<close>, \<open>keyring_service\<close> the constant \<^verbatim>\<open>_KEYRING_SERVICE\<close>
  of the worker module, \<open>func\<close> the handler that was wrapped. The channel is closed
  when the \<^verbatim>\<open>async with\<close> block is left, whatever the handler did. The check of the
  handler's annotations happens once, when the handler is decorated, and is not part of
  a call.
\<close>

definition wrapped_func ::
  "worker \<Rightarrow> (string \<Rightarrow> string \<Rightarrow> string option) \<Rightarrow> string \<Rightarrow>
   ('a arg list \<Rightarrow> 'kw \<Rightarrow> ('r, ('m, 'ss) world, ('v, 'm) error) io) \<Rightarrow>
   'a arg list \<Rightarrow> 'kw \<Rightarrow> ('r, ('m, 'ss) world, ('v, 'm) error) io" where
  "wrapped_func wk get_password keyring_service func args kwargs w =
     (case callback wk of
        None \<Rightarrow> (Inl (RuntimeError ''Callback address has not been extracted from request.''), w)
      | Some (h, p) \<Rightarrow>
          (let opening = open_channel h p w;
               token = get_password keyring_service ''token'';
               key = get_password keyring_service ''key'';
               ch = (case token of
                       None \<Rightarrow> fst opening
                     | Some login \<Rightarrow>
                         (case key of
                            None \<Rightarrow> fst opening
                          | Some pwd \<Rightarrow> listen (fst opening) (gen_auth_injector login pwd)));
               outcome = func (ClientArg (RuntimeClient ch) # args) kwargs (snd opening)
           in (fst outcome, close_channel ch (snd outcome))))"

subsection \<open>Parsing the signature\<close>

record ('f, 't) namespace_defs =
  defs_functions :: "string \<rightharpoonup> 'f"
  defs_aliases :: "string \<rightharpoonup> 't"

text \<open>
  \<^verbatim>\<open>ListFunctionsResponse\<close>: two dictionaries from fully-qualified names to entries, as
  the lists of their items in iteration order.
\<close>

record ('fe, 'te) list_functions_response =
  sig_functions :: "(string \<times> 'fe) list"
  sig_aliases :: "(string \<times> 'te) list"

text \<open>
  \<^verbatim>\<open>s.split(sep, maxsplit)\<close> for a separator of one character: at most \<open>maxsplit\<close>
  cuts, from the left; what is left after the last cut is the last part.
\<close>

fun py_split :: "char \<Rightarrow> nat \<Rightarrow> string \<Rightarrow> string list" where
  "py_split sep 0 s = [s]"
| "py_split sep (Suc n) [] = [[]]"
| "py_split sep (Suc n) (c # cs) =
     (if c = sep then [] # py_split sep n cs
      else (case py_split sep (Suc n) cs of
              [] \<Rightarrow> [[c]]
            | part # parts \<Rightarrow> (c # part) # parts))"

text \<open>The unpacking \<^verbatim>\<open>a, b = parts\<close>.\<close>

fun unpack2 :: "string list \<Rightarrow> ('v, 'm) error + string \<times> string" where
  "unpack2 [a, b] = Inr (a, b)"
| "unpack2 parts = Inl ValueError"

text \<open>
  The two loops of \<^verbatim>\<open>signature_from_proto\<close>. \<open>func_from_proto\<close> is
  \<^verbatim>\<open>TierkreisFunction.from_proto\<close> and \<open>scheme_from_proto\<close> is
  \<^verbatim>\<open>TypeScheme.from_proto\<close>, parameters here.
\<close>

fun functions_loop ::
  "('fe \<Rightarrow> 'f) \<Rightarrow> (string \<times> 'fe) list \<Rightarrow> (string \<rightharpoonup> ('f, 't) namespace_defs) \<Rightarrow>
     ('v, 'm) error + (string \<rightharpoonup> ('f, 't) namespace_defs)" where
  "functions_loop func_from_proto [] namespaces = Inr namespaces"
| "functions_loop func_from_proto ((name, entry) # rest) namespaces =
     (case unpack2 (py_split CHR ''/'' 2 name) of
        Inl err \<Rightarrow> Inl err
      | Inr (namespace, fname) \<Rightarrow>
          (let func = func_from_proto entry
           in functions_loop func_from_proto rest
                (case namespaces namespace of
                   Some defs \<Rightarrow>
                     namespaces(namespace \<mapsto> defs\<lparr>defs_functions := (defs_functions defs)(fname \<mapsto> func)\<rparr>)
                 | None \<Rightarrow>
                     namespaces(namespace \<mapsto>
                       \<lparr>defs_functions = [fname \<mapsto> func], defs_aliases = Map.empty\<rparr>))))"

fun aliases_loop ::
  "('te \<Rightarrow> 't) \<Rightarrow> (string \<times> 'te) list \<Rightarrow> (string \<rightharpoonup> ('f, 't) namespace_defs) \<Rightarrow>
     ('v, 'm) error + (string \<rightharpoonup> ('f, 't) namespace_defs)" where
  "aliases_loop scheme_from_proto [] namespaces = Inr namespaces"
| "aliases_loop scheme_from_proto ((name, type_proto) # rest) namespaces =
     (case unpack2 (py_split CHR ''/'' 2 name) of
        Inl err \<Rightarrow> Inl err
      | Inr (namespace, alias_name) \<Rightarrow>
          (let type_scheme = scheme_from_proto type_proto
           in aliases_loop scheme_from_proto rest
                (case namespaces namespace of
                   Some defs \<Rightarrow>
                     namespaces(namespace \<mapsto> defs\<lparr>defs_aliases := (defs_aliases defs)(alias_name \<mapsto> type_scheme)\<rparr>)
                 | None \<Rightarrow>
                     namespaces(namespace \<mapsto>
                       \<lparr>defs_functions = Map.empty, defs_aliases = [alias_name \<mapsto> type_scheme]\<rparr>))))"

definition signature_from_proto ::
  "('fe \<Rightarrow> 'f) \<Rightarrow> ('te \<Rightarrow> 't) \<Rightarrow> ('fe, 'te) list_functions_response \<Rightarrow>
     ('v, 'm) error + (string \<rightharpoonup> ('f, 't) namespace_defs)" where
  "signature_from_proto func_from_proto scheme_from_proto pr_sig =
     (case functions_loop func_from_proto (sig_functions pr_sig) Map.empty of
        Inl err \<Rightarrow> Inl err
      | Inr namespaces \<Rightarrow> aliases_loop scheme_from_proto (sig_aliases pr_sig) namespaces)"

text \<open>
  The namespace and the short name of a fully-qualified name, cut at its first
  separator.
\<close>

definition namespace_of :: "string \<Rightarrow> string" where
  "namespace_of name = takeWhile (\<lambda>c. c \<noteq> CHR ''/'') name"

definition short_name_of :: "string \<Rightarrow> string" where
  "short_name_of name = drop 1 (dropWhile (\<lambda>c. c \<noteq> CHR ''/'') name)"

definition separators :: "string \<Rightarrow> nat" where
  "separators name = count_list name CHR ''/''"

definition qualified_name :: "string \<Rightarrow> string \<Rightarrow> string" where
  "qualified_name namespace short = namespace @ ''/'' @ short"

text \<open>
  What a signature holds under a namespace and a short name: nothing when the namespace
  has no record.
\<close>

definition lookup_function ::
  "(string \<rightharpoonup> ('f, 't) namespace_defs) \<Rightarrow> string \<Rightarrow> string \<Rightarrow> 'f option" where
  "lookup_function sig namespace short =
     (case sig namespace of None \<Rightarrow> None | Some defs \<Rightarrow> defs_functions defs short)"

definition lookup_alias ::
  "(string \<rightharpoonup> ('f, 't) namespace_defs) \<Rightarrow> string \<Rightarrow> string \<Rightarrow> 't option" where
  "lookup_alias sig namespace short =
     (case sig namespace of None \<Rightarrow> None | Some defs \<Rightarrow> defs_aliases defs short)"

subsection \<open>Example data\<close>

text \<open>
  A small runtime to run the client against. Native values are numbers, which convert,
  and opaque objects, which do not; graphs and wire messages are strings. The runtime
  rejects the graph \<open>''ill-typed''\<close> with type errors and starts a task \<open>''task0''\<close>
  for any other; \<open>''task0''\<close> succeeds and every other task fails with \<open>''boom''\<close>.
  Its task list depends on its state: in state \<open>0\<close> a task without status and a
  finished one, in any other state two entries with the same id.
\<close>

datatype native = Number int | Opaque string

fun demo_from_python :: "native \<Rightarrow> int option" where
  "demo_from_python (Number n) = Some n"
| "demo_from_python (Opaque s) = None"

definition demo_run_task ::
  "(string \<rightharpoonup> string) \<Rightarrow> string \<Rightarrow> string \<Rightarrow> nat \<Rightarrow> (string + string run_task_response) \<times> nat" where
  "demo_run_task md graph inputs ss =
     (if graph = ''ill-typed''
      then (Inr \<lparr>result_current = Some ''type_errors'', resp_task_id = '''',
                 resp_type_errors = ''mismatch''\<rparr>, ss)
      else (Inr \<lparr>result_current = Some ''task_id'', resp_task_id = ''task0'',
                 resp_type_errors = ''''\<rparr>, Suc ss))"

definition demo_list_tasks ::
  "(string \<rightharpoonup> string) \<Rightarrow> nat \<Rightarrow> (string + string task list) \<times> nat" where
  "demo_list_tasks md ss =
     (if ss = 0
      then (Inr [\<lparr>task_msg_id = ''a'', status = None\<rparr>,
                 \<lparr>task_msg_id = ''b'', status = Some (''success'', ''answer'')\<rparr>], ss)
      else (Inr [\<lparr>task_msg_id = ''t'', status = None\<rparr>,
                 \<lparr>task_msg_id = ''t'', status = Some (''success'', ''answer'')\<rparr>], ss))"

definition demo_await_task ::
  "(string \<rightharpoonup> string) \<Rightarrow> string \<Rightarrow> nat \<Rightarrow> (string + string task) \<times> nat" where
  "demo_await_task md ident ss =
     (if ident = ''task0''
      then (Inr \<lparr>task_msg_id = ident, status = Some (''success'', ''answer'')\<rparr>, ss)
      else (Inr \<lparr>task_msg_id = ident, status = Some (''error'', ''boom'')\<rparr>, ss))"

definition demo_env :: "(native, int, string, string, nat) env" where
  "demo_env =
     \<lparr>from_python = demo_from_python,
      graph_to_proto = (\<lambda>g. g),
      to_proto_dict = (\<lambda>inputs. concat (map fst inputs)),
      struct_map = (\<lambda>m. m),
      from_proto_dict = (\<lambda>m. [(m, 42)]),
      py_str = (\<lambda>m. m),
      run_task_rpc = demo_run_task,
      list_tasks_rpc = demo_list_tasks,
      await_task_rpc = demo_await_task\<rparr>"

definition demo_channel :: channel where
  "demo_channel = \<lparr>chan_id = 0, host = ''localhost'', port = 8080, listeners = []\<rparr>"

definition demo_client :: runtime_client where
  "demo_client = RuntimeClient demo_channel"

definition demo_stub :: service_stub where
  "demo_stub = \<lparr>stub_class = RuntimeStub, stub_channel = demo_channel, stub_oid = 0\<rparr>"

definition demo_world :: "nat \<Rightarrow> (string, nat) world" where
  "demo_world ss = \<lparr>opened = [(''localhost'', 8080)], closed = [], sent = [], server_state = ss\<rparr>"

definition demo_state :: "nat \<Rightarrow> runtime_client \<times> (string, nat) world" where
  "demo_state ss = (demo_client, demo_world ss)"

text \<open>
  A worker that knows its callback address and one that does not, a credential store
  that holds both secrets and one that holds only the token, and a handler that lists
  the tasks through the client it is given.
\<close>

definition demo_worker :: worker where
  "demo_worker = \<lparr>callback = Some (''runtime.local'', 8090)\<rparr>"

definition fresh_worker :: worker where
  "fresh_worker = \<lparr>callback = None\<rparr>"

definition full_keyring :: "string \<Rightarrow> string \<Rightarrow> string option" where
  "full_keyring service username =
     (if service = ''tierkreis'' \<and> username = ''token'' then Some ''tok''
      else if service = ''tierkreis'' \<and> username = ''key'' then Some ''k3y''
      else None)"

definition token_only_keyring :: "string \<Rightarrow> string \<Rightarrow> string option" where
  "token_only_keyring service username =
     (if service = ''tierkreis'' \<and> username = ''token'' then Some ''tok'' else None)"

definition listing_handler ::
  "int arg list \<Rightarrow> unit \<Rightarrow>
     ((task_handle \<times> pyval) list, (string, nat) world, (native, string) error) io" where
  "listing_handler args kwargs w =
     (case args of
        ClientArg client # rest \<Rightarrow>
          (case list_tasks demo_env (client, w) of (r, s) \<Rightarrow> (r, snd s))
      | _ \<Rightarrow> (Inl (RuntimeError ''no client''), w))"

definition blank_world :: "(string, nat) world" where
  "blank_world = \<lparr>opened = [], closed = [], sent = [], server_state = 0\<rparr>"

text \<open>
  The catalogue of the specification's example, the same entries in another order, and
  two catalogues with an ill-formed name. Entries are numbers and decoding an entry is
  \<open>Suc\<close>.
\<close>

definition qubit_catalogue :: "(nat, nat) list_functions_response" where
  "qubit_catalogue =
     \<lparr>sig_functions = [(''qubit/h'', 1), (''qubit/x'', 2)],
      sig_aliases = [(''qubit/QubitAlias'', 3)]\<rparr>"

definition qubit_catalogue_reordered :: "(nat, nat) list_functions_response" where
  "qubit_catalogue_reordered =
     \<lparr>sig_functions = [(''qubit/x'', 2), (''qubit/h'', 1)],
      sig_aliases = [(''qubit/QubitAlias'', 3)]\<rparr>"

definition bare_catalogue :: "(nat, nat) list_functions_response" where
  "bare_catalogue = \<lparr>sig_functions = [(''h'', 1)], sig_aliases = []\<rparr>"

definition nested_catalogue :: "(nat, nat) list_functions_response" where
  "nested_catalogue =
     \<lparr>sig_functions = [(''qubit/h'', 1)], sig_aliases = [(''pytket/circuit/Box'', 3)]\<rparr>"

section \<open>Properties\<close>

subsection \<open>The stub cache\<close>

lemma stub_gen_hit:
  "stubs c key = Some s \<Longrightarrow>
     stub_gen key t c = ((if stub_class s = t then Inr s else Inl AssertionError), c)"
  by (simp add: stub_gen_def)

lemma stub_gen_miss:
  "stubs c key = None \<Longrightarrow>
     stub_gen key t c =
       (Inr (new_stub t c),
        c\<lparr>stubs := (stubs c)(key \<mapsto> new_stub t c), constructed := Suc (constructed c)\<rparr>)"
  by (simp add: stub_gen_def new_stub_def)

lemma stub_gen_keeps_entry:
  "stubs c k = Some s \<Longrightarrow> stubs (snd (stub_gen key t c)) k = Some s"
  by (cases "stubs c key") (auto simp: stub_gen_miss stub_gen_hit)

lemma stub_accesses_keep_entry:
  "stubs c k = Some s \<Longrightarrow> stubs (stub_accesses later c) k = Some s"
proof (induction later arbitrary: c)
  case Nil
  then show ?case by simp
next
  case (Cons a later)
  obtain key t where a: "a = (key, t)" by (cases a)
  show ?case
    unfolding a stub_accesses.simps
    by (rule Cons.IH) (rule stub_gen_keeps_entry [OF Cons.prems])
qed

text \<open>
  Claim C9. The stub cache is insert-if-absent. Let an access to \<open>key\<close> with the stub
  class \<open>t\<close> return \<open>r\<close> and leave the client \<open>c'\<close>. If the key was not cached, the
  access constructed one stub, returned it and stored it under the key. If the key was
  cached, the client is unchanged. The entry of every other key is what it was. And
  after any further accesses, to this key or to others, an access to \<open>key\<close> returns the
  same \<open>r\<close>, the very stub object of the first access, and leaves the client as it
  finds it.
\<close>

theorem stub_cache_insert_if_absent:
  assumes first: "stub_gen key t c = (r, c')"
  shows "(stubs c key = None \<longrightarrow>
            r = Inr (new_stub t c) \<and> stubs c' key = Some (new_stub t c) \<and>
            constructed c' = Suc (constructed c)) \<and>
         (stubs c key \<noteq> None \<longrightarrow> c' = c) \<and>
         (\<forall>k. k \<noteq> key \<longrightarrow> stubs c' k = stubs c k) \<and>
         (\<forall>later. stub_gen key t (stub_accesses later c') = (r, stub_accesses later c'))"
proof (cases "stubs c key")
  case None
  from first have r: "r = Inr (new_stub t c)"
    and c': "c' = c\<lparr>stubs := (stubs c)(key \<mapsto> new_stub t c), constructed := Suc (constructed c)\<rparr>"
    by (simp_all add: stub_gen_miss [OF None])
  have entry: "stubs c' key = Some (new_stub t c)" by (simp add: c')
  have "stub_gen key t (stub_accesses later c') = (r, stub_accesses later c')" for later
    using stub_gen_hit [OF stub_accesses_keep_entry [OF entry, of later], of t]
    by (simp add: r new_stub_def)
  then show ?thesis using None by (simp add: r c')
next
  case (Some s)
  from first have r: "r = (if stub_class s = t then Inr s else Inl AssertionError)"
    and c': "c' = c"
    by (simp_all add: stub_gen_hit [OF Some])
  have entry: "stubs c' key = Some s" by (simp add: c' Some)
  have "stub_gen key t (stub_accesses later c') = (r, stub_accesses later c')" for later
    using stub_gen_hit [OF stub_accesses_keep_entry [OF entry, of later], of t]
    by (simp add: r)
  then show ?thesis using Some by (simp add: c')
qed

text \<open>
  On a fresh client: the first access to \<open>''runtime''\<close> builds the stub; after accesses
  to the signature stub and to the runtime stub again, the runtime stub is still that
  object, and the signature stub is another one.
\<close>

theorem stub_cache_insert_if_absent_witness:
  "stubs demo_client ''runtime'' = None \<and>
   fst (stub_gen ''runtime'' RuntimeStub demo_client
          :: ((unit, unit) error + service_stub) \<times> runtime_client)
     = Inr \<lparr>stub_class = RuntimeStub, stub_channel = demo_channel, stub_oid = 0\<rparr> \<and>
   fst (stub_gen ''runtime'' RuntimeStub
          (stub_accesses [(''signature'', SignatureStub), (''runtime'', RuntimeStub)]
             (snd (stub_gen ''runtime'' RuntimeStub demo_client
                     :: ((unit, unit) error + service_stub) \<times> runtime_client)))
          :: ((unit, unit) error + service_stub) \<times> runtime_client)
     = Inr \<lparr>stub_class = RuntimeStub, stub_channel = demo_channel, stub_oid = 0\<rparr> \<and>
   stubs (stub_accesses [(''signature'', SignatureStub), (''runtime'', RuntimeStub)]
            (snd (stub_gen ''runtime'' RuntimeStub demo_client
                    :: ((unit, unit) error + service_stub) \<times> runtime_client))) ''signature''
     = Some \<lparr>stub_class = SignatureStub, stub_channel = demo_channel, stub_oid = 1\<rparr>"
  using stub_cache_insert_if_absent
          [of "''runtime''" RuntimeStub demo_client
              "fst (stub_gen ''runtime'' RuntimeStub demo_client
                      :: ((unit, unit) error + service_stub) \<times> runtime_client)"
              "snd (stub_gen ''runtime'' RuntimeStub demo_client
                      :: ((unit, unit) error + service_stub) \<times> runtime_client)"]
  by (simp add: stub_gen_def new_stub_def demo_client_def RuntimeClient_def)

subsection \<open>The worker callback authenticator\<close>

text \<open>
  Claim C7. When the worker's callback address is absent, a call of the wrapped handler
  raises the \<^verbatim>\<open>RuntimeError\<close> about the callback address and leaves the world as it
  was: no channel is opened, nothing is sent, the handler is not run.
\<close>

theorem missing_callback_fails_before_opening:
  assumes "callback wk = None"
  shows "wrapped_func wk get_password keyring_service func args kwargs w =
           (Inl (RuntimeError ''Callback address has not been extracted from request.''), w)"
  using assms by (simp add: wrapped_func_def)

theorem missing_callback_fails_before_opening_witness:
  "callback fresh_worker = None \<and>
   wrapped_func fresh_worker full_keyring ''tierkreis'' listing_handler [Arg 7] () blank_world =
     (Inl (RuntimeError ''Callback address has not been extracted from request.''), blank_world) \<and>
   opened blank_world = [] \<and> sent blank_world = []"
  using missing_callback_fails_before_opening
          [of fresh_worker full_keyring "''tierkreis''" listing_handler "[Arg 7]" "()" blank_world]
  by (simp add: fresh_worker_def blank_world_def)

subsection \<open>start\_task\<close>

lemma convert_inputs_first_failure:
  "\<forall>kv \<in> set before. conv (snd kv) \<noteq> None \<Longrightarrow> conv val = None \<Longrightarrow>
   convert_inputs conv (before @ (key, val) # rest) acc = Inl (InputConversionError key val)"
proof (induction before arbitrary: acc)
  case Nil
  then show ?case by simp
next
  case (Cons a before)
  obtain k v where a: "a = (k, v)" by (cases a)
  from Cons.prems(1) obtain tv where tv: "conv v = Some tv" by (auto simp: a)
  from Cons.prems have "\<forall>kv \<in> set before. conv (snd kv) \<noteq> None" by simp
  from Cons.IH [OF this Cons.prems(2)] show ?case by (simp add: a tv)
qed

lemma first_failure_exists:
  "\<exists>kv \<in> set xs. P kv \<Longrightarrow>
   \<exists>before kv rest. xs = before @ kv # rest \<and> (\<forall>x \<in> set before. \<not> P x) \<and> P kv"
  by (metis split_list_first_prop)

text \<open>
  Claim C2. If some input value has no conversion, \<^verbatim>\<open>start_task\<close> raises
  \<^verbatim>\<open>InputConversionError\<close> with the key and the value of the first such input in
  iteration order (every input before it converts), and the client and the world are
  what they were: no stub was built and no request was sent.
\<close>

theorem start_task_fails_fast:
  fixes e :: "('v, 'tv, 'g, 'm, 'ss) env"
  assumes "\<exists>kv \<in> set py_inputs. from_python e (snd kv) = None"
  shows "\<exists>before key val rest.
           py_inputs = before @ (key, val) # rest \<and>
           (\<forall>kv \<in> set before. from_python e (snd kv) \<noteq> None) \<and>
           from_python e val = None \<and>
           start_task e graph py_inputs s = (Inl (InputConversionError key val), s)"
proof -
  from first_failure_exists [OF assms]
  obtain before kv rest where split: "py_inputs = before @ kv # rest"
    and ok: "\<forall>x \<in> set before. from_python e (snd x) \<noteq> None"
    and bad: "from_python e (snd kv) = None"
    by blast
  obtain key val where kv: "kv = (key, val)" by (cases kv)
  have "convert_inputs (from_python e) py_inputs []
          = (Inl (InputConversionError key val) :: ('v, 'm) error + (string \<times> 'tv) list)"
    unfolding split kv using ok bad
    by (intro convert_inputs_first_failure) (simp_all add: kv)
  then have "start_task e graph py_inputs s = (Inl (InputConversionError key val), s)"
    by (simp add: start_task_def raise_io_def)
  with split ok bad kv show ?thesis by auto
qed

theorem start_task_fails_fast_witness:
  "from_python demo_env (Opaque ''socket'') = None \<and>
   start_task demo_env ''g''
       [(''angle'', Number 3), (''label'', Opaque ''socket''), (''q'', Opaque ''file'')]
       (demo_state 0) =
     (Inl (InputConversionError ''label'' (Opaque ''socket'')), demo_state 0) \<and>
   sent (snd (demo_state 0)) = []"
  using start_task_fails_fast
          [of "[(''angle'', Number 3), (''label'', Opaque ''socket''), (''q'', Opaque ''file'')]"
              demo_env "''g''" "demo_state 0"]
  by (simp add: start_task_def demo_env_def raise_io_def demo_state_def demo_world_def)

subsection \<open>list\_tasks\<close>


lemma status_label_eq:
  "status_label t =
     (if fst (which_one_of (status t)) = '''' then PyStr ''running''
      else PyStr (fst (which_one_of (status t))))"
  by (simp add: status_label_def py_is_def py_or_def Let_def)

lemma status_label_not_blank: "\<exists>s. status_label t = PyStr s \<and> s \<noteq> ''''"
  by (simp add: status_label_eq)

lemma list_tasks_loop_append:
  "list_tasks_loop (xs @ ys) acc = list_tasks_loop ys (list_tasks_loop xs acc)"
  by (induction xs arbitrary: acc) simp_all

lemma list_tasks_loop_other:
  "task_id h \<notin> task_msg_id ` set ts \<Longrightarrow> map_of (list_tasks_loop ts acc) h = map_of acc h"
proof (induction ts arbitrary: acc)
  case Nil
  then show ?case by simp
next
  case (Cons t ts)
  then have "h \<noteq> TaskHandle (task_msg_id t)" by auto
  with Cons show ?case by (simp add: update_conv')
qed

lemma list_tasks_loop_last:
  assumes "task_msg_id t \<notin> task_msg_id ` set after"
  shows "map_of (list_tasks_loop (before @ t # after) acc) (TaskHandle (task_msg_id t))
           = Some (status_label t)"
  using assms by (simp add: list_tasks_loop_append list_tasks_loop_other update_conv')

lemma list_tasks_loop_labels:
  assumes "\<And>h l. map_of acc h = Some l \<Longrightarrow> \<exists>s. l = PyStr s \<and> s \<noteq> ''''"
      and "map_of (list_tasks_loop ts acc) h = Some l"
  shows "\<exists>s. l = PyStr s \<and> s \<noteq> ''''"
  using assms
proof (induction ts arbitrary: acc)
  case Nil
  then show ?case by simp
next
  case (Cons t ts)
  let ?acc = "AList.update (TaskHandle (task_msg_id t)) (status_label t) acc"
  have step: "\<exists>s. l' = PyStr s \<and> s \<noteq> ''''" if "map_of ?acc h' = Some l'" for h' l'
  proof (cases "h' = TaskHandle (task_msg_id t)")
    case True
    with that have "l' = status_label t" by (simp add: update_conv')
    then show ?thesis using status_label_not_blank [of t] by simp
  next
    case False
    with that have "map_of acc h' = Some l'" by (simp add: update_conv')
    then show ?thesis by (rule Cons.prems(1))
  qed
  have "map_of (list_tasks_loop ts ?acc) h = Some l"
    using Cons.prems(2) by simp
  with step show ?case by (rule Cons.IH)
qed

lemma list_tasks_run:
  fixes e :: "('v, 'tv, 'g, 'm, 'ss) env"
  assumes "(runtime_stub c :: (('v, 'm) error + service_stub) \<times> runtime_client) = (Inr stub, c1)"
      and "list_tasks_rpc e (request_metadata (stub_channel stub)) (server_state w) = (Inr tasks, ss)"
  shows "list_tasks e (c, w) =
           (Inr (list_tasks_loop tasks []),
            (c1, w\<lparr>sent := sent w @ [(chan_id (stub_channel stub),
                                        request_metadata (stub_channel stub), ListTasksRequest)],
                   server_state := ss\<rparr>))"
  using assms
  by (simp add: list_tasks_def bind_io_def on_client_def on_world_def unary_call_def
        return_io_def Let_def)

text \<open>
  Claim C1, amended. Let the runtime stub be available and the server answer the
  request with the list \<open>tasks\<close>. Then \<^verbatim>\<open>list_tasks\<close> returns a dictionary in which
  every entry of \<open>tasks\<close> whose status discriminator is empty or absent (\<open>which_one_of\<close>
  gives the empty name) and whose id no later entry repeats has its handle mapped to
  \<open>''running''\<close>; and every label of the dictionary is a string that is not empty. The
  dictionary is keyed by handle, so of several entries with one id the last one decides
  the label.
\<close>

theorem list_tasks_defaults_to_running:
  fixes e :: "('v, 'tv, 'g, 'm, 'ss) env"
  assumes stub: "(runtime_stub c :: (('v, 'm) error + service_stub) \<times> runtime_client) = (Inr stub, c')"
      and reply: "list_tasks_rpc e (request_metadata (stub_channel stub)) (server_state w) = (Inr tasks, ss)"
  shows "\<exists>result s'.
           list_tasks e (c, w) = (Inr result, s') \<and>
           (\<forall>before t after.
              tasks = before @ t # after \<and> fst (which_one_of (status t)) = '''' \<and>
              task_msg_id t \<notin> task_msg_id ` set after \<longrightarrow>
              map_of result (TaskHandle (task_msg_id t)) = Some (PyStr ''running'')) \<and>
           (\<forall>h l. map_of result h = Some l \<longrightarrow> (\<exists>s. l = PyStr s \<and> s \<noteq> ''''))"
proof -
  let ?result = "list_tasks_loop tasks []"
  have run: "list_tasks e (c, w) = (Inr ?result,
            (c', w\<lparr>sent := sent w @ [(chan_id (stub_channel stub),
                                        request_metadata (stub_channel stub), ListTasksRequest)],
                   server_state := ss\<rparr>))"
    by (rule list_tasks_run [OF stub reply])
  have running: "map_of ?result (TaskHandle (task_msg_id t)) = Some (PyStr ''running'')"
    if "tasks = before @ t # after" "fst (which_one_of (status t)) = ''''"
       "task_msg_id t \<notin> task_msg_id ` set after" for before t after
    using that by (simp add: list_tasks_loop_last status_label_eq)
  have labelled: "\<exists>s. l = PyStr s \<and> s \<noteq> ''''" if "map_of ?result h = Some l" for h l
    using _ that by (rule list_tasks_loop_labels) simp
  from run running labelled show ?thesis by blast
qed

theorem list_tasks_defaults_to_running_witness:
  "(runtime_stub demo_client :: ((native, string) error + service_stub) \<times> runtime_client)
     = (Inr demo_stub, demo_client\<lparr>stubs := [''runtime'' \<mapsto> demo_stub], constructed := 1\<rparr>) \<and>
   list_tasks_rpc demo_env (request_metadata (stub_channel demo_stub)) (server_state (demo_world 0))
     = (Inr [\<lparr>task_msg_id = ''a'', status = None\<rparr>,
             \<lparr>task_msg_id = ''b'', status = Some (''success'', ''answer'')\<rparr>], 0) \<and>
   fst (which_one_of (status \<lparr>task_msg_id = ''a'', status = None :: (string \<times> string) option\<rparr>)) = '''' \<and>
   (\<exists>result s'.
      list_tasks demo_env (demo_client, demo_world 0) = (Inr result, s') \<and>
      map_of result (TaskHandle ''a'') = Some (PyStr ''running'')) \<and>
   fst (list_tasks demo_env (demo_client, demo_world 0)) =
     Inr [(TaskHandle ''a'', PyStr ''running''), (TaskHandle ''b'', PyStr ''success'')]"
proof -
  let ?a = "\<lparr>task_msg_id = ''a'', status = None :: (string \<times> string) option\<rparr>"
  let ?b = "\<lparr>task_msg_id = ''b'', status = Some (''success'', ''answer'')\<rparr>"
  have stub: "(runtime_stub demo_client :: ((native, string) error + service_stub) \<times> runtime_client)
     = (Inr demo_stub, demo_client\<lparr>stubs := [''runtime'' \<mapsto> demo_stub], constructed := 1\<rparr>)"
    by (simp add: runtime_stub_def stub_gen_def new_stub_def demo_client_def RuntimeClient_def
          demo_stub_def)
  have reply: "list_tasks_rpc demo_env (request_metadata (stub_channel demo_stub))
       (server_state (demo_world 0)) = (Inr [?a, ?b], 0)"
    by (simp add: demo_env_def demo_list_tasks_def demo_world_def)
  have unset: "fst (which_one_of (status ?a)) = ''''"
    by (simp add: which_one_of_def)
  from list_tasks_defaults_to_running [OF stub reply]
  obtain result s' where run: "list_tasks demo_env (demo_client, demo_world 0) = (Inr result, s')"
    and running: "\<forall>before t after.
              [?a, ?b] = before @ t # after \<and> fst (which_one_of (status t)) = '''' \<and>
              task_msg_id t \<notin> task_msg_id ` set after \<longrightarrow>
              map_of result (TaskHandle (task_msg_id t)) = Some (PyStr ''running'')"
    by blast
  from running [rule_format, of "[]" ?a "[?b]"] unset
  have "map_of result (TaskHandle ''a'') = Some (PyStr ''running'')" by simp
  with run have found: "\<exists>result s'.
      list_tasks demo_env (demo_client, demo_world 0) = (Inr result, s') \<and>
      map_of result (TaskHandle ''a'') = Some (PyStr ''running'')"
    by blast
  have whole: "fst (list_tasks demo_env (demo_client, demo_world 0)) =
     Inr [(TaskHandle ''a'', PyStr ''running''), (TaskHandle ''b'', PyStr ''success'')]"
    by (simp add: list_tasks_run [OF stub reply] status_label_eq which_one_of_def)
  from stub reply unset found whole show ?thesis by blast
qed

text \<open>
  The claim as it was stated fails on a response that lists one id twice: the first
  entry has no status, yet its handle is mapped to \<open>''success''\<close>, the label of the
  second entry.
\<close>

theorem list_tasks_duplicate_ids_counterexample:
  "list_tasks_loop [\<lparr>task_msg_id = ''t'', status = None\<rparr>,
                    \<lparr>task_msg_id = ''t'', status = Some (''success'', ''answer'')\<rparr>] []
     = [(TaskHandle ''t'', PyStr ''success'')] \<and>
   fst (list_tasks demo_env (demo_state 1)) = Inr [(TaskHandle ''t'', PyStr ''success'')]"
  by (simp add: list_tasks_def bind_io_def on_client_def on_world_def unary_call_def
        return_io_def Let_def runtime_stub_def stub_gen_def new_stub_def demo_env_def demo_state_def
        demo_client_def RuntimeClient_def demo_world_def demo_list_tasks_def
        status_label_eq which_one_of_def request_metadata_def dispatch_def demo_channel_def)

subsection \<open>The outcomes of await\_task and start\_task\<close>


lemma await_task_run:
  fixes e :: "('v, 'tv, 'g, 'm, 'ss) env"
  assumes "(runtime_stub c :: (('v, 'm) error + service_stub) \<times> runtime_client) = (Inr stub, c')"
      and "await_task_rpc e (request_metadata (stub_channel stub)) (task_id task) (server_state w)
             = (Inr decoded, ss)"
  shows "fst (await_task e task (c, w)) =
           (if fst (which_one_of (status decoded)) \<noteq> ''success''
            then Inl (RuntimeError (failure_message e (snd (which_one_of (status decoded)))))
            else case snd (which_one_of (status decoded)) of
                   None \<Rightarrow> Inl AssertionError
                 | Some sv \<Rightarrow> Inr (from_proto_dict e (struct_map e sv)))"
  using assms
  by (simp add: await_task_def bind_io_def on_client_def on_world_def unary_call_def
        return_io_def raise_io_def Let_def split: prod.splits option.splits)

text \<open>
  Claim C3. Let the runtime stub be available and the server answer the request for
  the task with the message \<open>decoded\<close>. If the status discriminator is not
  \<open>''success''\<close>, \<^verbatim>\<open>await_task\<close> raises a \<^verbatim>\<open>RuntimeError\<close> whose message is the fixed
  prefix followed by the rendering of the status value, and so returns no mapping; when
  a status field other than \<open>success\<close> is set (the name of a field is not empty), that
  is the rendering of the payload the server supplied. If the status is \<open>''success''\<close>
  with the struct \<open>sv\<close>, it returns the decoded mapping of \<open>sv\<close>.
\<close>

theorem await_task_outcome:
  fixes e :: "('v, 'tv, 'g, 'm, 'ss) env"
  assumes stub: "(runtime_stub c :: (('v, 'm) error + service_stub) \<times> runtime_client) = (Inr stub, c')"
      and reply: "await_task_rpc e (request_metadata (stub_channel stub)) (task_id task) (server_state w)
             = (Inr decoded, ss)"
  shows "(fst (which_one_of (status decoded)) \<noteq> ''success'' \<longrightarrow>
            fst (await_task e task (c, w)) =
              Inl (RuntimeError (''Task execution failed with message:'' @ [CHR 0x0A] @
                                 format_value e (snd (which_one_of (status decoded)))))) \<and>
         (\<forall>name payload.
            status decoded = Some (name, payload) \<and> name \<noteq> '''' \<and> name \<noteq> ''success'' \<longrightarrow>
            fst (await_task e task (c, w)) =
              Inl (RuntimeError (''Task execution failed with message:'' @ [CHR 0x0A] @
                                 py_str e payload))) \<and>
         (\<forall>sv. status decoded = Some (''success'', sv) \<longrightarrow>
            fst (await_task e task (c, w)) = Inr (from_proto_dict e (struct_map e sv)))"
proof -
  note run = await_task_run [OF stub reply]
  have failed: "fst (await_task e task (c, w)) =
              Inl (RuntimeError (''Task execution failed with message:'' @ [CHR 0x0A] @
                                 format_value e (snd (which_one_of (status decoded)))))"
    if "fst (which_one_of (status decoded)) \<noteq> ''success''"
    using that by (simp add: run failure_message_def)
  have payload: "fst (await_task e task (c, w)) =
              Inl (RuntimeError (''Task execution failed with message:'' @ [CHR 0x0A] @
                                 py_str e payload))"
    if "status decoded = Some (name, payload)" "name \<noteq> ''''" "name \<noteq> ''success''"
    for name payload
    using that by (simp add: run failure_message_def format_value_def which_one_of_def)
  have success: "fst (await_task e task (c, w)) = Inr (from_proto_dict e (struct_map e sv))"
    if "status decoded = Some (''success'', sv)" for sv
    using that by (simp add: run which_one_of_def)
  from failed payload success show ?thesis by blast
qed

theorem await_task_outcome_witness:
  "(runtime_stub demo_client :: ((native, string) error + service_stub) \<times> runtime_client)
     = (Inr demo_stub, demo_client\<lparr>stubs := [''runtime'' \<mapsto> demo_stub], constructed := 1\<rparr>) \<and>
   await_task_rpc demo_env (request_metadata (stub_channel demo_stub)) (task_id (TaskHandle ''task7''))
       (server_state (demo_world 0))
     = (Inr \<lparr>task_msg_id = ''task7'', status = Some (''error'', ''boom'')\<rparr>, 0) \<and>
   await_task_rpc demo_env (request_metadata (stub_channel demo_stub)) (task_id (TaskHandle ''task0''))
       (server_state (demo_world 0))
     = (Inr \<lparr>task_msg_id = ''task0'', status = Some (''success'', ''answer'')\<rparr>, 0) \<and>
   fst (await_task demo_env (TaskHandle ''task7'') (demo_client, demo_world 0)) =
     Inl (RuntimeError (''Task execution failed with message:'' @ [CHR 0x0A] @ ''boom'')) \<and>
   fst (await_task demo_env (TaskHandle ''task0'') (demo_client, demo_world 0)) =
     Inr [(''answer'', 42)]"
proof -
  have stub: "(runtime_stub demo_client :: ((native, string) error + service_stub) \<times> runtime_client)
     = (Inr demo_stub, demo_client\<lparr>stubs := [''runtime'' \<mapsto> demo_stub], constructed := 1\<rparr>)"
    by (simp add: runtime_stub_def stub_gen_def new_stub_def demo_client_def RuntimeClient_def
          demo_stub_def)
  have failing: "await_task_rpc demo_env (request_metadata (stub_channel demo_stub))
       (task_id (TaskHandle ''task7'')) (server_state (demo_world 0))
     = (Inr \<lparr>task_msg_id = ''task7'', status = Some (''error'', ''boom'')\<rparr>, 0)"
    by (simp add: demo_env_def demo_await_task_def demo_world_def)
  have succeeding: "await_task_rpc demo_env (request_metadata (stub_channel demo_stub))
       (task_id (TaskHandle ''task0'')) (server_state (demo_world 0))
     = (Inr \<lparr>task_msg_id = ''task0'', status = Some (''success'', ''answer'')\<rparr>, 0)"
    by (simp add: demo_env_def demo_await_task_def demo_world_def)
  have "fst (await_task demo_env (TaskHandle ''task7'') (demo_client, demo_world 0)) =
     Inl (RuntimeError (''Task execution failed with message:'' @ [CHR 0x0A] @ ''boom''))"
    using await_task_outcome [OF stub failing] by (simp add: demo_env_def)
  moreover
  have "fst (await_task demo_env (TaskHandle ''task0'') (demo_client, demo_world 0)) =
     Inr [(''answer'', 42)]"
    using await_task_outcome [OF stub succeeding] by (simp add: demo_env_def)
  ultimately show ?thesis using stub failing succeeding by simp
qed

lemma which_one_of_result_name:
  "fst (which_one_of (result_group decoded)) = ''task_id'' \<longleftrightarrow> result_current decoded = Some ''task_id''"
  by (auto simp: which_one_of_def result_group_def split: option.splits if_splits)

text \<open>
  Claim C4. Let every input convert, the runtime stub be available and the server
  answer the run request with the message \<open>decoded\<close>. If the discriminator of the
  \<open>result\<close> group selects \<open>task_id\<close>, \<^verbatim>\<open>start_task\<close> returns the handle that carries
  the identifier of the response. In every other case, an unset group included, it
  raises \<^verbatim>\<open>TierkreisTypeErrors\<close> built from the type errors of the response. A
  handle it returns is a \<open>TaskHandle\<close> of a string; there is no null handle.
\<close>

theorem start_task_outcome:
  fixes e :: "('v, 'tv, 'g, 'm, 'ss) env"
  assumes conv: "(convert_inputs (from_python e) py_inputs [] :: ('v, 'm) error + (string \<times> 'tv) list)
                   = Inr inputs"
      and stub: "(runtime_stub c :: (('v, 'm) error + service_stub) \<times> runtime_client) = (Inr stub, c')"
      and reply: "run_task_rpc e (request_metadata (stub_channel stub)) (graph_to_proto e graph)
                    (to_proto_dict e inputs) (server_state w) = (Inr decoded, ss)"
  shows "(result_current decoded = Some ''task_id'' \<longrightarrow>
            fst (start_task e graph py_inputs (c, w)) = Inr (TaskHandle (resp_task_id decoded))) \<and>
         (result_current decoded \<noteq> Some ''task_id'' \<longrightarrow>
            fst (start_task e graph py_inputs (c, w)) =
              Inl (TierkreisTypeErrors (resp_type_errors decoded)))"
  using conv stub reply
  by (simp add: start_task_def bind_io_def on_client_def on_world_def unary_call_def
        return_io_def raise_io_def Let_def which_one_of_result_name)

theorem start_task_outcome_witness:
  "(convert_inputs (from_python demo_env) [(''angle'', Number 3)] []
      :: (native, string) error + (string \<times> int) list) = Inr [(''angle'', 3)] \<and>
   (runtime_stub demo_client :: ((native, string) error + service_stub) \<times> runtime_client)
     = (Inr demo_stub, demo_client\<lparr>stubs := [''runtime'' \<mapsto> demo_stub], constructed := 1\<rparr>) \<and>
   run_task_rpc demo_env (request_metadata (stub_channel demo_stub)) (graph_to_proto demo_env ''g'')
       (to_proto_dict demo_env [(''angle'', 3)]) (server_state (demo_world 0))
     = (Inr \<lparr>result_current = Some ''task_id'', resp_task_id = ''task0'', resp_type_errors = ''''\<rparr>, 1) \<and>
   run_task_rpc demo_env (request_metadata (stub_channel demo_stub))
       (graph_to_proto demo_env ''ill-typed'') (to_proto_dict demo_env [(''angle'', 3)])
       (server_state (demo_world 0))
     = (Inr \<lparr>result_current = Some ''type_errors'', resp_task_id = '''',
               resp_type_errors = ''mismatch''\<rparr>, 0) \<and>
   fst (start_task demo_env ''g'' [(''angle'', Number 3)] (demo_client, demo_world 0))
     = Inr (TaskHandle ''task0'') \<and>
   fst (start_task demo_env ''ill-typed'' [(''angle'', Number 3)] (demo_client, demo_world 0))
     = Inl (TierkreisTypeErrors ''mismatch'')"
proof -
  have conv: "(convert_inputs (from_python demo_env) [(''angle'', Number 3)] []
      :: (native, string) error + (string \<times> int) list) = Inr [(''angle'', 3)]"
    by (simp add: demo_env_def)
  have stub: "(runtime_stub demo_client :: ((native, string) error + service_stub) \<times> runtime_client)
     = (Inr demo_stub, demo_client\<lparr>stubs := [''runtime'' \<mapsto> demo_stub], constructed := 1\<rparr>)"
    by (simp add: runtime_stub_def stub_gen_def new_stub_def demo_client_def RuntimeClient_def
          demo_stub_def)
  have accepted: "run_task_rpc demo_env (request_metadata (stub_channel demo_stub))
       (graph_to_proto demo_env ''g'') (to_proto_dict demo_env [(''angle'', 3)])
       (server_state (demo_world 0))
     = (Inr \<lparr>result_current = Some ''task_id'', resp_task_id = ''task0'', resp_type_errors = ''''\<rparr>, 1)"
    by (simp add: demo_env_def demo_run_task_def demo_world_def)
  have rejected: "run_task_rpc demo_env (request_metadata (stub_channel demo_stub))
       (graph_to_proto demo_env ''ill-typed'') (to_proto_dict demo_env [(''angle'', 3)])
       (server_state (demo_world 0))
     = (Inr \<lparr>result_current = Some ''type_errors'', resp_task_id = '''',
               resp_type_errors = ''mismatch''\<rparr>, 0)"
    by (simp add: demo_env_def demo_run_task_def demo_world_def)
  have "fst (start_task demo_env ''g'' [(''angle'', Number 3)] (demo_client, demo_world 0))
     = Inr (TaskHandle ''task0'')"
    using start_task_outcome [OF conv stub accepted] by simp
  moreover
  have "fst (start_task demo_env ''ill-typed'' [(''angle'', Number 3)] (demo_client, demo_world 0))
     = Inl (TierkreisTypeErrors ''mismatch'')"
    using start_task_outcome [OF conv stub rejected] by simp
  ultimately show ?thesis using conv stub accepted rejected by simp
qed

subsection \<open>run\_graph\<close>


lemma bind_io_return: "bind_io m return_io = m"
  by (rule ext) (simp add: bind_io_def return_io_def split: prod.splits sum.splits)

lemma unary_call_sent:
  "sent (snd (unary_call stub rq handler w)) =
     sent w @ [(chan_id (stub_channel stub), request_metadata (stub_channel stub), rq)]"
  by (simp add: unary_call_def Let_def split: sum.splits)

lemma stub_call_sent:
  fixes k :: "'r \<Rightarrow> ('a, runtime_client \<times> ('m, 'ss) world, ('v, 'm) error) io"
  assumes "\<And>r s. sent (snd (snd (k r s))) = sent (snd s)"
  shows "\<exists>new. sent (snd (snd (bind_io (on_client runtime_stub)
                    (\<lambda>stub. bind_io (on_world (unary_call stub (rq stub) (handler stub))) k) s)))
                = sent (snd s) @ new \<and> length new \<le> 1"
proof (cases "runtime_stub (fst s) :: (('v, 'm) error + service_stub) \<times> runtime_client")
  case (Pair res c')
  show ?thesis
  proof (cases res)
    case (Inl err)
    with Pair show ?thesis by (simp add: bind_io_def on_client_def)
  next
    case (Inr stub)
    obtain reply w' where call:
      "(unary_call stub (rq stub) (handler stub) (snd s) :: (('v, 'm) error + 'r) \<times> ('m, 'ss) world)
         = (reply, w')"
      by (cases "unary_call stub (rq stub) (handler stub) (snd s) :: (('v, 'm) error + 'r) \<times> ('m, 'ss) world")
    have w': "sent w' = sent (snd s) @ [(chan_id (stub_channel stub),
                 request_metadata (stub_channel stub), rq stub)]"
      by (metis call snd_conv unary_call_sent)
    show ?thesis
      using Pair Inr call w' assms
      by (cases reply) (simp_all add: bind_io_def on_client_def on_world_def)
  qed
qed

lemma start_task_sent:
  fixes e :: "('v, 'tv, 'g, 'm, 'ss) env"
  shows "\<exists>new. sent (snd (snd (start_task e graph py_inputs s))) = sent (snd s) @ new \<and> length new \<le> 1"
proof (cases "convert_inputs (from_python e) py_inputs [] :: ('v, 'm) error + (string \<times> 'tv) list")
  case (Inl err)
  then show ?thesis by (simp add: start_task_def raise_io_def)
next
  case (Inr inputs)
  show ?thesis
    unfolding start_task_def Inr sum.case
    by (rule stub_call_sent) (simp add: Let_def return_io_def raise_io_def)
qed

lemma await_task_sent:
  "\<exists>new. sent (snd (snd (await_task e task s))) = sent (snd s) @ new \<and> length new \<le> 1"
  unfolding await_task_def
  by (rule stub_call_sent) (simp add: return_io_def raise_io_def split: prod.splits option.splits)

text \<open>
  Claim C6. \<^verbatim>\<open>run_graph\<close> is \<^verbatim>\<open>start_task\<close> followed by \<^verbatim>\<open>await_task\<close> on the
  handle it returned: it computes what the composition of the specification computes;
  an exception of \<^verbatim>\<open>start_task\<close> is its outcome, state included, and \<^verbatim>\<open>await_task\<close>
  is not called; otherwise its outcome, a result or an exception, is that of
  \<^verbatim>\<open>await_task\<close>. Nothing is tried again: a call sends at most two requests.
\<close>

theorem run_graph_is_start_then_await:
  "run_graph e graph py_inputs s = run_graph_spec e graph py_inputs s \<and>
   (\<forall>err s1. start_task e graph py_inputs s = (Inl err, s1) \<longrightarrow>
        run_graph e graph py_inputs s = (Inl err, s1)) \<and>
   (\<forall>handle s1. start_task e graph py_inputs s = (Inr handle, s1) \<longrightarrow>
        run_graph e graph py_inputs s = await_task e handle s1) \<and>
   (\<exists>new. sent (snd (snd (run_graph e graph py_inputs s))) = sent (snd s) @ new \<and> length new \<le> 2)"
proof -
  have spec: "run_graph e graph py_inputs s = run_graph_spec e graph py_inputs s"
    by (simp add: run_graph_def run_graph_spec_def bind_io_return)
       (simp add: bind_io_def split: prod.splits sum.splits)
  have failed: "run_graph e graph py_inputs s = (Inl err, s1)"
    if "start_task e graph py_inputs s = (Inl err, s1)" for err s1
    using that by (simp add: spec run_graph_spec_def)
  have started: "run_graph e graph py_inputs s = await_task e handle s1"
    if "start_task e graph py_inputs s = (Inr handle, s1)" for handle s1
    using that by (simp add: spec run_graph_spec_def)
  obtain res s1 where start: "start_task e graph py_inputs s = (res, s1)"
    by (cases "start_task e graph py_inputs s")
  from start_task_sent [of e graph py_inputs s] start
  obtain new1 where new1: "sent (snd s1) = sent (snd s) @ new1" "length new1 \<le> 1"
    by auto
  have "\<exists>new. sent (snd (snd (run_graph e graph py_inputs s))) = sent (snd s) @ new \<and> length new \<le> 2"
  proof (cases res)
    case (Inl err)
    with start failed [of err s1] new1 show ?thesis by auto
  next
    case (Inr handle)
    from await_task_sent [of e handle s1]
    obtain new2 where "sent (snd (snd (await_task e handle s1))) = sent (snd s1) @ new2"
      "length new2 \<le> 1"
      by auto
    with Inr start started [of handle s1] new1 show ?thesis
      by (intro exI [of _ "new1 @ new2"]) simp
  qed
  with spec failed started show ?thesis by blast
qed

theorem run_graph_is_start_then_await_witness:
  "fst (start_task demo_env ''g'' [(''angle'', Number 3)] (demo_client, demo_world 0))
     = Inr (TaskHandle ''task0'') \<and>
   run_graph demo_env ''g'' [(''angle'', Number 3)] (demo_client, demo_world 0)
     = await_task demo_env (TaskHandle ''task0'')
         (snd (start_task demo_env ''g'' [(''angle'', Number 3)] (demo_client, demo_world 0))) \<and>
   fst (run_graph demo_env ''g'' [(''angle'', Number 3)] (demo_client, demo_world 0))
     = Inr [(''answer'', 42)] \<and>
   map (\<lambda>entry. snd (snd entry))
       (sent (snd (snd (run_graph demo_env ''g'' [(''angle'', Number 3)] (demo_client, demo_world 0)))))
     = [RunTaskRequest ''g'' ''angle'', AwaitTaskRequest ''task0''] \<and>
   fst (start_task demo_env ''ill-typed'' [(''angle'', Number 3)] (demo_client, demo_world 0))
     = Inl (TierkreisTypeErrors ''mismatch'') \<and>
   run_graph demo_env ''ill-typed'' [(''angle'', Number 3)] (demo_client, demo_world 0)
     = (Inl (TierkreisTypeErrors ''mismatch''),
        snd (start_task demo_env ''ill-typed'' [(''angle'', Number 3)] (demo_client, demo_world 0)))"
proof -
  let ?s = "(demo_client, demo_world 0)"
  let ?inputs = "[(''angle'', Number 3)]"
  note defs = start_task_def await_task_def bind_io_def on_client_def on_world_def unary_call_def
        return_io_def raise_io_def Let_def runtime_stub_def stub_gen_def new_stub_def demo_env_def
        demo_client_def RuntimeClient_def demo_world_def demo_run_task_def demo_await_task_def
        which_one_of_def result_group_def request_metadata_def dispatch_def demo_channel_def
  have ok_fst: "fst (start_task demo_env ''g'' ?inputs ?s) = Inr (TaskHandle ''task0'')"
    by (simp add: defs)
  then have ok: "start_task demo_env ''g'' ?inputs ?s
              = (Inr (TaskHandle ''task0''), snd (start_task demo_env ''g'' ?inputs ?s))"
    by (metis prod.collapse)
  have bad_fst: "fst (start_task demo_env ''ill-typed'' ?inputs ?s)
                   = Inl (TierkreisTypeErrors ''mismatch'')"
    by (simp add: defs)
  then have bad: "start_task demo_env ''ill-typed'' ?inputs ?s
              = (Inl (TierkreisTypeErrors ''mismatch''), snd (start_task demo_env ''ill-typed'' ?inputs ?s))"
    by (metis prod.collapse)
  note thm_ok = run_graph_is_start_then_await [of demo_env "''g''" ?inputs ?s]
  note thm_bad = run_graph_is_start_then_await [of demo_env "''ill-typed''" ?inputs ?s]
  have composed: "run_graph demo_env ''g'' ?inputs ?s
     = await_task demo_env (TaskHandle ''task0'') (snd (start_task demo_env ''g'' ?inputs ?s))"
    using thm_ok ok by blast
  have propagated: "run_graph demo_env ''ill-typed'' ?inputs ?s
     = (Inl (TierkreisTypeErrors ''mismatch''), snd (start_task demo_env ''ill-typed'' ?inputs ?s))"
    using thm_bad bad by blast
  have outputs: "fst (run_graph demo_env ''g'' ?inputs ?s) = Inr [(''answer'', 42)]"
    unfolding composed by (simp add: defs)
  have requests: "map (\<lambda>entry. snd (snd entry)) (sent (snd (snd (run_graph demo_env ''g'' ?inputs ?s))))
     = [RunTaskRequest ''g'' ''angle'', AwaitTaskRequest ''task0'']"
    unfolding composed by (simp add: defs)
  show ?thesis
    by (intro conjI) (fact ok_fst composed outputs requests bad_fst propagated)+
qed

subsection \<open>The wrapped handler with a callback address\<close>


lemma wrapped_func_run:
  assumes "callback wk = Some (h, p)"
  shows "wrapped_func wk get_password keyring_service func args kwargs w =
     (let ch0 = \<lparr>chan_id = length (opened w), host = h, port = p, listeners = []\<rparr>;
          ch = (case get_password keyring_service ''token'' of
                  None \<Rightarrow> ch0
                | Some login \<Rightarrow>
                    (case get_password keyring_service ''key'' of
                       None \<Rightarrow> ch0
                     | Some pwd \<Rightarrow> ch0\<lparr>listeners := [gen_auth_injector login pwd]\<rparr>));
          outcome = func (ClientArg (RuntimeClient ch) # args) kwargs (w\<lparr>opened := opened w @ [(h, p)]\<rparr>)
      in (fst outcome, close_channel ch (snd outcome)))"
  using assms
  by (simp add: wrapped_func_def open_channel_def listen_def Let_def split: option.splits)

text \<open>
  Claim C8. Let the worker know its callback address \<open>(h, p)\<close>. A call of the wrapped
  handler opens one channel \<open>ch\<close> to that address, runs the handler with a fresh client
  bound to \<open>ch\<close> put before the caller's arguments, returns what the handler returns
  (the wrapper raises nothing of its own) and closes the channel. If the credential
  store holds both the token and the key, the one listener of \<open>ch\<close> is the injector for
  them: it sets the metadata fields \<open>token\<close> and \<open>key\<close> of every event and leaves the
  others, so every request sent through a stub on \<open>ch\<close> goes out with the two fields.
  If either secret is missing, \<open>ch\<close> has no listener and requests go out with empty
  metadata.
\<close>

theorem wrapped_call_injects_credentials:
  assumes cb: "callback wk = Some (h, p)"
  shows "\<exists>ch. chan_id ch = length (opened w) \<and> host ch = h \<and> port ch = p \<and>
           wrapped_func wk get_password keyring_service func args kwargs w =
             (fst (func (ClientArg (RuntimeClient ch) # args) kwargs (w\<lparr>opened := opened w @ [(h, p)]\<rparr>)),
              close_channel ch
                (snd (func (ClientArg (RuntimeClient ch) # args) kwargs (w\<lparr>opened := opened w @ [(h, p)]\<rparr>)))) \<and>
           (\<forall>login pwd.
              get_password keyring_service ''token'' = Some login \<and>
              get_password keyring_service ''key'' = Some pwd \<longrightarrow>
              listeners ch = [gen_auth_injector login pwd] \<and>
              (\<forall>event. metadata (dispatch ch event)
                         = ((metadata event)(''token'' \<mapsto> login))(''key'' \<mapsto> pwd)) \<and>
              (\<forall>stub rq handler w'.
                 stub_channel stub = ch \<longrightarrow>
                 sent (snd (unary_call stub rq handler w')) =
                   sent w' @ [(chan_id ch, [''token'' \<mapsto> login, ''key'' \<mapsto> pwd], rq)])) \<and>
           (get_password keyring_service ''token'' = None \<or>
            get_password keyring_service ''key'' = None \<longrightarrow>
              listeners ch = [] \<and>
              (\<forall>stub rq handler w'.
                 stub_channel stub = ch \<longrightarrow>
                 sent (snd (unary_call stub rq handler w')) = sent w' @ [(chan_id ch, Map.empty, rq)]))"
proof -
  let ?ch0 = "\<lparr>chan_id = length (opened w), host = h, port = p, listeners = []\<rparr>"
  let ?ch = "case get_password keyring_service ''token'' of
                  None \<Rightarrow> ?ch0
                | Some login \<Rightarrow>
                    (case get_password keyring_service ''key'' of
                       None \<Rightarrow> ?ch0
                     | Some pwd \<Rightarrow> ?ch0\<lparr>listeners := [gen_auth_injector login pwd]\<rparr>)"
  have shape: "chan_id ?ch = length (opened w) \<and> host ?ch = h \<and> port ?ch = p"
    by (simp split: option.splits)
  have run: "wrapped_func wk get_password keyring_service func args kwargs w =
             (fst (func (ClientArg (RuntimeClient ?ch) # args) kwargs (w\<lparr>opened := opened w @ [(h, p)]\<rparr>)),
              close_channel ?ch
                (snd (func (ClientArg (RuntimeClient ?ch) # args) kwargs (w\<lparr>opened := opened w @ [(h, p)]\<rparr>))))"
    by (simp add: wrapped_func_run [OF cb] Let_def)
  have both: "listeners ?ch = [gen_auth_injector login pwd] \<and>
              (\<forall>event. metadata (dispatch ?ch event)
                         = ((metadata event)(''token'' \<mapsto> login))(''key'' \<mapsto> pwd)) \<and>
              (\<forall>stub rq handler w'.
                 stub_channel stub = ?ch \<longrightarrow>
                 sent (snd (unary_call stub rq handler w')) =
                   sent w' @ [(chan_id ?ch, [''token'' \<mapsto> login, ''key'' \<mapsto> pwd], rq)])"
    if "get_password keyring_service ''token'' = Some login"
       "get_password keyring_service ''key'' = Some pwd" for login pwd
    using that
    by (simp add: dispatch_def gen_auth_injector_def unary_call_def request_metadata_def Let_def
          split: sum.splits)
  have missing: "listeners ?ch = [] \<and>
              (\<forall>stub rq handler w'.
                 stub_channel stub = ?ch \<longrightarrow>
                 sent (snd (unary_call stub rq handler w')) = sent w' @ [(chan_id ?ch, Map.empty, rq)])"
    if "get_password keyring_service ''token'' = None \<or> get_password keyring_service ''key'' = None"
    using that
    by (auto simp: dispatch_def unary_call_def request_metadata_def Let_def
          split: sum.splits option.splits)
  from shape run both missing show ?thesis
    by (intro exI [of _ ?ch]) blast
qed

theorem wrapped_call_injects_credentials_witness:
  "callback demo_worker = Some (''runtime.local'', 8090) \<and>
   wrapped_func demo_worker full_keyring ''tierkreis'' listing_handler [Arg 7] () blank_world =
     (Inr [(TaskHandle ''a'', PyStr ''running''), (TaskHandle ''b'', PyStr ''success'')],
      \<lparr>opened = [(''runtime.local'', 8090)], closed = [0],
       sent = [(0, [''token'' \<mapsto> ''tok'', ''key'' \<mapsto> ''k3y''], ListTasksRequest)],
       server_state = 0\<rparr>) \<and>
   wrapped_func demo_worker token_only_keyring ''tierkreis'' listing_handler [Arg 7] () blank_world =
     (Inr [(TaskHandle ''a'', PyStr ''running''), (TaskHandle ''b'', PyStr ''success'')],
      \<lparr>opened = [(''runtime.local'', 8090)], closed = [0],
       sent = [(0, Map.empty, ListTasksRequest)],
       server_state = 0\<rparr>)"
proof -
  note defs = listing_handler_def list_tasks_def bind_io_def on_client_def on_world_def
    unary_call_def return_io_def Let_def runtime_stub_def stub_gen_def new_stub_def demo_env_def
    RuntimeClient_def demo_list_tasks_def status_label_def py_is_def py_or_def which_one_of_def
    request_metadata_def dispatch_def gen_auth_injector_def close_channel_def blank_world_def
    full_keyring_def token_only_keyring_def
  have cb: "callback demo_worker = Some (''runtime.local'', 8090)"
    by (simp add: demo_worker_def)
  from wrapped_call_injects_credentials [OF cb, of blank_world full_keyring "''tierkreis''"
         listing_handler "[Arg 7]" "()"]
  obtain ch where ch: "chan_id ch = length (opened blank_world)" "host ch = ''runtime.local''"
      "port ch = 8090"
    and run: "wrapped_func demo_worker full_keyring ''tierkreis'' listing_handler [Arg 7] () blank_world =
             (fst (listing_handler (ClientArg (RuntimeClient ch) # [Arg 7]) ()
                     (blank_world\<lparr>opened := opened blank_world @ [(''runtime.local'', 8090)]\<rparr>)),
              close_channel ch
                (snd (listing_handler (ClientArg (RuntimeClient ch) # [Arg 7]) ()
                     (blank_world\<lparr>opened := opened blank_world @ [(''runtime.local'', 8090)]\<rparr>))))"
    and hook: "\<forall>login pwd.
              full_keyring ''tierkreis'' ''token'' = Some login \<and>
              full_keyring ''tierkreis'' ''key'' = Some pwd \<longrightarrow>
              listeners ch = [gen_auth_injector login pwd] \<and>
              (\<forall>event. metadata (dispatch ch event)
                         = ((metadata event)(''token'' \<mapsto> login))(''key'' \<mapsto> pwd)) \<and>
              (\<forall>stub rq handler w'.
                 stub_channel stub = ch \<longrightarrow>
                 sent (snd (unary_call stub rq handler w')) =
                   sent w' @ [(chan_id ch, [''token'' \<mapsto> login, ''key'' \<mapsto> pwd], rq)])"
    by (elim exE conjE) (rule that)
  from hook [rule_format, of "''tok''" "''k3y''"]
  have l: "listeners ch = [gen_auth_injector ''tok'' ''k3y'']"
    by (simp add: full_keyring_def)
  have full: "wrapped_func demo_worker full_keyring ''tierkreis'' listing_handler [Arg 7] () blank_world =
     (Inr [(TaskHandle ''a'', PyStr ''running''), (TaskHandle ''b'', PyStr ''success'')],
      \<lparr>opened = [(''runtime.local'', 8090)], closed = [0],
       sent = [(0, [''token'' \<mapsto> ''tok'', ''key'' \<mapsto> ''k3y''], ListTasksRequest)],
       server_state = 0\<rparr>)"
    unfolding run using ch l by (simp add: defs)
  from wrapped_call_injects_credentials [OF cb, of blank_world token_only_keyring "''tierkreis''"
         listing_handler "[Arg 7]" "()"]
  obtain ch' where ch': "chan_id ch' = length (opened blank_world)" "host ch' = ''runtime.local''"
      "port ch' = 8090"
    and run': "wrapped_func demo_worker token_only_keyring ''tierkreis'' listing_handler [Arg 7] () blank_world =
             (fst (listing_handler (ClientArg (RuntimeClient ch') # [Arg 7]) ()
                     (blank_world\<lparr>opened := opened blank_world @ [(''runtime.local'', 8090)]\<rparr>)),
              close_channel ch'
                (snd (listing_handler (ClientArg (RuntimeClient ch') # [Arg 7]) ()
                     (blank_world\<lparr>opened := opened blank_world @ [(''runtime.local'', 8090)]\<rparr>))))"
    and nohook: "token_only_keyring ''tierkreis'' ''token'' = None \<or>
            token_only_keyring ''tierkreis'' ''key'' = None \<longrightarrow>
              listeners ch' = [] \<and>
              (\<forall>stub rq handler w'.
                 stub_channel stub = ch' \<longrightarrow>
                 sent (snd (unary_call stub rq handler w')) = sent w' @ [(chan_id ch', Map.empty, rq)])"
    by (elim exE conjE) (rule that)
  from nohook have l': "listeners ch' = []"
    by (simp add: token_only_keyring_def)
  have partial: "wrapped_func demo_worker token_only_keyring ''tierkreis'' listing_handler [Arg 7] () blank_world =
     (Inr [(TaskHandle ''a'', PyStr ''running''), (TaskHandle ''b'', PyStr ''success'')],
      \<lparr>opened = [(''runtime.local'', 8090)], closed = [0],
       sent = [(0, Map.empty, ListTasksRequest)],
       server_state = 0\<rparr>)"
    unfolding run' using ch' l' by (simp add: defs)
  show ?thesis by (intro conjI) (fact cb full partial)+
qed

subsection \<open>Splitting a fully-qualified name\<close>


lemma py_split_zero: "py_split sep 0 s = [s]"
  by (cases s) simp_all

lemma py_split_step:
  "py_split sep (Suc n) s =
     (if sep \<in> set s
      then takeWhile (\<lambda>c. c \<noteq> sep) s # py_split sep n (drop 1 (dropWhile (\<lambda>c. c \<noteq> sep) s))
      else [s])"
  by (induction s) auto

lemma count_list_step:
  "count_list s sep =
     (if sep \<in> set s then Suc (count_list (drop 1 (dropWhile (\<lambda>c. c \<noteq> sep) s)) sep) else 0)"
  by (induction s) auto

lemma split_one_separator:
  assumes "separators name = 1"
  shows "unpack2 (py_split CHR ''/'' 2 name) = Inr (namespace_of name, short_name_of name)"
proof -
  let ?rest = "drop 1 (dropWhile (\<lambda>c. c \<noteq> CHR ''/'') name)"
  from assms have "count_list name CHR ''/'' = 1" by (simp add: separators_def)
  then have mem: "CHR ''/'' \<in> set name" and "count_list ?rest CHR ''/'' = 0"
    using count_list_step [of name "CHR ''/''"] by (auto split: if_splits)
  then have rest: "CHR ''/'' \<notin> set ?rest" by (simp add: count_list_0_iff)
  have "py_split CHR ''/'' 2 name = [takeWhile (\<lambda>c. c \<noteq> CHR ''/'') name, ?rest]"
    using mem rest by (simp add: numeral_2_eq_2 py_split_step py_split_zero)
  then show ?thesis by (simp add: namespace_of_def short_name_of_def)
qed

lemma split_other_separators:
  assumes "separators name \<noteq> 1"
  shows "unpack2 (py_split CHR ''/'' 2 name) = Inl ValueError"
proof (cases "CHR ''/'' \<in> set name")
  case False
  then show ?thesis
    by (simp add: numeral_2_eq_2 py_split_step)
next
  case True
  let ?rest = "drop 1 (dropWhile (\<lambda>c. c \<noteq> CHR ''/'') name)"
  from assms True have "count_list ?rest CHR ''/'' \<noteq> 0"
    using count_list_step [of name "CHR ''/''"] by (simp add: separators_def)
  then have rest: "CHR ''/'' \<in> set ?rest" by (simp add: count_list_0_iff)
  have "py_split CHR ''/'' 2 name =
          [takeWhile (\<lambda>c. c \<noteq> CHR ''/'') name, takeWhile (\<lambda>c. c \<noteq> CHR ''/'') ?rest,
           drop 1 (dropWhile (\<lambda>c. c \<noteq> CHR ''/'') ?rest)]"
    using True rest by (simp add: numeral_2_eq_2 py_split_step py_split_zero)
  then show ?thesis by simp
qed

lemma qualified_name_parts:
  assumes "separators name = 1"
  shows "qualified_name (namespace_of name) (short_name_of name) = name"
proof -
  from assms have "CHR ''/'' \<in> set name"
    using count_list_step [of name "CHR ''/''"] by (auto simp: separators_def split: if_splits)
  then have "dropWhile (\<lambda>c. c \<noteq> CHR ''/'') name \<noteq> []" by (simp add: dropWhile_eq_Nil_conv)
  then obtain x xs where d: "dropWhile (\<lambda>c. c \<noteq> CHR ''/'') name = x # xs"
    by (cases "dropWhile (\<lambda>c. c \<noteq> CHR ''/'') name") auto
  then have "x = CHR ''/''" using hd_dropWhile [of "\<lambda>c. c \<noteq> CHR ''/''" name] by auto
  with d have "takeWhile (\<lambda>c. c \<noteq> CHR ''/'') name @ ''/'' @ drop 1 (dropWhile (\<lambda>c. c \<noteq> CHR ''/'') name)
                 = takeWhile (\<lambda>c. c \<noteq> CHR ''/'') name @ dropWhile (\<lambda>c. c \<noteq> CHR ''/'') name"
    by simp
  then show ?thesis by (simp add: qualified_name_def namespace_of_def short_name_of_def)
qed

lemma takeWhile_before_separator:
  "sep \<notin> set ns \<Longrightarrow> takeWhile (\<lambda>c. c \<noteq> sep) (ns @ sep # r) = ns"
  by (induction ns) auto

lemma dropWhile_before_separator:
  "sep \<notin> set ns \<Longrightarrow> dropWhile (\<lambda>c. c \<noteq> sep) (ns @ sep # r) = sep # r"
  by (induction ns) auto

lemma parts_of_qualified_name:
  assumes "separators (qualified_name ns short) = 1"
  shows "namespace_of (qualified_name ns short) = ns \<and> short_name_of (qualified_name ns short) = short"
proof -
  from assms have "count_list ns CHR ''/'' = 0"
    by (simp add: separators_def qualified_name_def)
  then have "CHR ''/'' \<notin> set ns" by (simp add: count_list_0_iff)
  then show ?thesis
    by (simp add: namespace_of_def short_name_of_def qualified_name_def
          takeWhile_before_separator dropWhile_before_separator)
qed

lemma qualified_name_eq_iff:
  assumes "separators name = 1"
  shows "qualified_name ns short = name \<longleftrightarrow> ns = namespace_of name \<and> short = short_name_of name"
  using assms parts_of_qualified_name [of ns short] qualified_name_parts [of name] by auto

subsection \<open>The two loops of signature\_from\_proto\<close>


lemma map_of_rev_Cons:
  "map_of (rev ((k, v) # xs)) q =
     (case map_of (rev xs) q of Some x \<Rightarrow> Some x | None \<Rightarrow> if q = k then Some v else None)"
  by (simp add: map_add_def split: option.splits)

lemma lookup_function_new_function:
  "lookup_function
     (case sig ns0 of
        Some defs \<Rightarrow> sig(ns0 \<mapsto> defs\<lparr>defs_functions := (defs_functions defs)(short0 \<mapsto> f)\<rparr>)
      | None \<Rightarrow> sig(ns0 \<mapsto> \<lparr>defs_functions = [short0 \<mapsto> f], defs_aliases = Map.empty\<rparr>))
     ns short
   = (if ns = ns0 \<and> short = short0 then Some f else lookup_function sig ns short)"
  by (simp add: lookup_function_def split: option.splits)

lemma lookup_alias_new_function:
  "lookup_alias
     (case sig ns0 of
        Some defs \<Rightarrow> sig(ns0 \<mapsto> defs\<lparr>defs_functions := (defs_functions defs)(short0 \<mapsto> f)\<rparr>)
      | None \<Rightarrow> sig(ns0 \<mapsto> \<lparr>defs_functions = [short0 \<mapsto> f], defs_aliases = Map.empty\<rparr>))
     ns short
   = lookup_alias sig ns short"
  by (simp add: lookup_alias_def split: option.splits)

lemma dom_new_function:
  "dom (case sig ns0 of
        Some defs \<Rightarrow> sig(ns0 \<mapsto> defs\<lparr>defs_functions := (defs_functions defs)(short0 \<mapsto> f)\<rparr>)
      | None \<Rightarrow> sig(ns0 \<mapsto> \<lparr>defs_functions = [short0 \<mapsto> f], defs_aliases = Map.empty\<rparr>))
   = insert ns0 (dom sig)"
  by (simp split: option.splits)

lemma lookup_alias_new_alias:
  "lookup_alias
     (case sig ns0 of
        Some defs \<Rightarrow> sig(ns0 \<mapsto> defs\<lparr>defs_aliases := (defs_aliases defs)(short0 \<mapsto> t)\<rparr>)
      | None \<Rightarrow> sig(ns0 \<mapsto> \<lparr>defs_functions = Map.empty, defs_aliases = [short0 \<mapsto> t]\<rparr>))
     ns short
   = (if ns = ns0 \<and> short = short0 then Some t else lookup_alias sig ns short)"
  by (simp add: lookup_alias_def split: option.splits)

lemma lookup_function_new_alias:
  "lookup_function
     (case sig ns0 of
        Some defs \<Rightarrow> sig(ns0 \<mapsto> defs\<lparr>defs_aliases := (defs_aliases defs)(short0 \<mapsto> t)\<rparr>)
      | None \<Rightarrow> sig(ns0 \<mapsto> \<lparr>defs_functions = Map.empty, defs_aliases = [short0 \<mapsto> t]\<rparr>))
     ns short
   = lookup_function sig ns short"
  by (simp add: lookup_function_def split: option.splits)

lemma dom_new_alias:
  "dom (case sig ns0 of
        Some defs \<Rightarrow> sig(ns0 \<mapsto> defs\<lparr>defs_aliases := (defs_aliases defs)(short0 \<mapsto> t)\<rparr>)
      | None \<Rightarrow> sig(ns0 \<mapsto> \<lparr>defs_functions = Map.empty, defs_aliases = [short0 \<mapsto> t]\<rparr>))
   = insert ns0 (dom sig)"
  by (simp split: option.splits)

lemma functions_loop_result:
  fixes sig :: "string \<rightharpoonup> ('f, 't) namespace_defs"
  assumes "\<forall>name \<in> fst ` set fs. separators name = 1"
  shows "\<exists>sig'. (functions_loop fp fs sig :: ('v, 'm) error + (string \<rightharpoonup> ('f, 't) namespace_defs)) = Inr sig' \<and>
           dom sig' = dom sig \<union> namespace_of ` fst ` set fs \<and>
           (\<forall>ns short. lookup_function sig' ns short =
              (case map_of (rev fs) (qualified_name ns short) of
                 Some entry \<Rightarrow> Some (fp entry)
               | None \<Rightarrow> lookup_function sig ns short)) \<and>
           (\<forall>ns short. lookup_alias sig' ns short = lookup_alias sig ns short)"
  using assms
proof (induction fs arbitrary: sig)
  case Nil
  then show ?case by simp
next
  case (Cons a fs)
  obtain name entry where a: "a = (name, entry)" by (cases a)
  from Cons.prems have one: "separators name = 1"
    and rest: "\<forall>name \<in> fst ` set fs. separators name = 1"
    by (simp_all add: a)
  let ?sig1 = "case sig (namespace_of name) of
        Some defs \<Rightarrow> sig(namespace_of name \<mapsto>
                        defs\<lparr>defs_functions := (defs_functions defs)(short_name_of name \<mapsto> fp entry)\<rparr>)
      | None \<Rightarrow> sig(namespace_of name \<mapsto>
                   \<lparr>defs_functions = [short_name_of name \<mapsto> fp entry], defs_aliases = Map.empty\<rparr>)"
  have step: "(functions_loop fp (a # fs) sig :: ('v, 'm) error + (string \<rightharpoonup> ('f, 't) namespace_defs))
                = functions_loop fp fs ?sig1"
    by (simp add: a split_one_separator [OF one] Let_def)
  from Cons.IH [OF rest, of ?sig1]
  obtain sig' where run: "(functions_loop fp fs ?sig1 :: ('v, 'm) error + (string \<rightharpoonup> ('f, 't) namespace_defs)) = Inr sig'"
    and d: "dom sig' = dom ?sig1 \<union> namespace_of ` fst ` set fs"
    and f: "\<And>ns short. lookup_function sig' ns short =
              (case map_of (rev fs) (qualified_name ns short) of
                 Some entry \<Rightarrow> Some (fp entry)
               | None \<Rightarrow> lookup_function ?sig1 ns short)"
    and al: "\<And>ns short. lookup_alias sig' ns short = lookup_alias ?sig1 ns short"
    by blast
  have "dom sig' = dom sig \<union> namespace_of ` fst ` set (a # fs)"
    by (simp add: d dom_new_function a)
  moreover
  have "lookup_function sig' ns short =
              (case map_of (rev (a # fs)) (qualified_name ns short) of
                 Some entry \<Rightarrow> Some (fp entry)
               | None \<Rightarrow> lookup_function sig ns short)" for ns short
    unfolding a map_of_rev_Cons f lookup_function_new_function
    using qualified_name_eq_iff [OF one, of ns short]
    by (auto split: option.splits)
  moreover
  have "lookup_alias sig' ns short = lookup_alias sig ns short" for ns short
    by (simp add: al lookup_alias_new_function)
  ultimately show ?case using run step by auto
qed

lemma aliases_loop_result:
  fixes sig :: "string \<rightharpoonup> ('f, 't) namespace_defs"
  assumes "\<forall>name \<in> fst ` set as. separators name = 1"
  shows "\<exists>sig'. (aliases_loop tp as sig :: ('v, 'm) error + (string \<rightharpoonup> ('f, 't) namespace_defs)) = Inr sig' \<and>
           dom sig' = dom sig \<union> namespace_of ` fst ` set as \<and>
           (\<forall>ns short. lookup_alias sig' ns short =
              (case map_of (rev as) (qualified_name ns short) of
                 Some entry \<Rightarrow> Some (tp entry)
               | None \<Rightarrow> lookup_alias sig ns short)) \<and>
           (\<forall>ns short. lookup_function sig' ns short = lookup_function sig ns short)"
  using assms
proof (induction as arbitrary: sig)
  case Nil
  then show ?case by simp
next
  case (Cons a as)
  obtain name entry where a: "a = (name, entry)" by (cases a)
  from Cons.prems have one: "separators name = 1"
    and rest: "\<forall>name \<in> fst ` set as. separators name = 1"
    by (simp_all add: a)
  let ?sig1 = "case sig (namespace_of name) of
        Some defs \<Rightarrow> sig(namespace_of name \<mapsto>
                        defs\<lparr>defs_aliases := (defs_aliases defs)(short_name_of name \<mapsto> tp entry)\<rparr>)
      | None \<Rightarrow> sig(namespace_of name \<mapsto>
                   \<lparr>defs_functions = Map.empty, defs_aliases = [short_name_of name \<mapsto> tp entry]\<rparr>)"
  have step: "(aliases_loop tp (a # as) sig :: ('v, 'm) error + (string \<rightharpoonup> ('f, 't) namespace_defs))
                = aliases_loop tp as ?sig1"
    by (simp add: a split_one_separator [OF one] Let_def)
  from Cons.IH [OF rest, of ?sig1]
  obtain sig' where run: "(aliases_loop tp as ?sig1 :: ('v, 'm) error + (string \<rightharpoonup> ('f, 't) namespace_defs)) = Inr sig'"
    and d: "dom sig' = dom ?sig1 \<union> namespace_of ` fst ` set as"
    and al: "\<And>ns short. lookup_alias sig' ns short =
              (case map_of (rev as) (qualified_name ns short) of
                 Some entry \<Rightarrow> Some (tp entry)
               | None \<Rightarrow> lookup_alias ?sig1 ns short)"
    and f: "\<And>ns short. lookup_function sig' ns short = lookup_function ?sig1 ns short"
    by blast
  have "dom sig' = dom sig \<union> namespace_of ` fst ` set (a # as)"
    by (simp add: d dom_new_alias a)
  moreover
  have "lookup_alias sig' ns short =
              (case map_of (rev (a # as)) (qualified_name ns short) of
                 Some entry \<Rightarrow> Some (tp entry)
               | None \<Rightarrow> lookup_alias sig ns short)" for ns short
    unfolding a map_of_rev_Cons al lookup_alias_new_alias
    using qualified_name_eq_iff [OF one, of ns short]
    by (auto split: option.splits)
  moreover
  have "lookup_function sig' ns short = lookup_function sig ns short" for ns short
    by (simp add: f lookup_function_new_alias)
  ultimately show ?case using run step by auto
qed

lemma functions_loop_bad_name:
  assumes "\<exists>name \<in> fst ` set fs. separators name \<noteq> 1"
  shows "functions_loop fp fs sig = Inl ValueError"
  using assms
proof (induction fs arbitrary: sig)
  case Nil
  then show ?case by simp
next
  case (Cons a fs)
  obtain name entry where a: "a = (name, entry)" by (cases a)
  show ?case
  proof (cases "separators name = 1")
    case True
    with Cons.prems have "\<exists>name \<in> fst ` set fs. separators name \<noteq> 1" by (auto simp: a)
    from Cons.IH [OF this] show ?thesis
      by (simp add: a split_one_separator [OF True] Let_def)
  next
    case False
    then show ?thesis by (simp add: a split_other_separators)
  qed
qed

lemma aliases_loop_bad_name:
  assumes "\<exists>name \<in> fst ` set as. separators name \<noteq> 1"
  shows "aliases_loop tp as sig = Inl ValueError"
  using assms
proof (induction as arbitrary: sig)
  case Nil
  then show ?case by simp
next
  case (Cons a as)
  obtain name entry where a: "a = (name, entry)" by (cases a)
  show ?case
  proof (cases "separators name = 1")
    case True
    with Cons.prems have "\<exists>name \<in> fst ` set as. separators name \<noteq> 1" by (auto simp: a)
    from Cons.IH [OF this] show ?thesis
      by (simp add: a split_one_separator [OF True] Let_def)
  next
    case False
    then show ?thesis by (simp add: a split_other_separators)
  qed
qed

subsection \<open>The parsed signature\<close>


lemma lookup_function_empty: "lookup_function Map.empty ns short = None"
  by (simp add: lookup_function_def)

lemma lookup_alias_empty: "lookup_alias Map.empty ns short = None"
  by (simp add: lookup_alias_def)

lemma signature_from_proto_result:
  fixes pr_sig :: "('fe, 'te) list_functions_response"
  assumes "\<forall>name \<in> fst ` set (sig_functions pr_sig) \<union> fst ` set (sig_aliases pr_sig).
             separators name = 1"
  shows "\<exists>sig. (signature_from_proto fp tp pr_sig
                   :: ('v, 'm) error + (string \<rightharpoonup> ('f, 't) namespace_defs)) = Inr sig \<and>
           dom sig = namespace_of ` (fst ` set (sig_functions pr_sig) \<union> fst ` set (sig_aliases pr_sig)) \<and>
           (\<forall>ns short. lookup_function sig ns short =
              map_option fp (map_of (rev (sig_functions pr_sig)) (qualified_name ns short))) \<and>
           (\<forall>ns short. lookup_alias sig ns short =
              map_option tp (map_of (rev (sig_aliases pr_sig)) (qualified_name ns short)))"
proof -
  from assms have fs: "\<forall>name \<in> fst ` set (sig_functions pr_sig). separators name = 1"
    and as: "\<forall>name \<in> fst ` set (sig_aliases pr_sig). separators name = 1"
    by auto
  from functions_loop_result [OF fs, of fp Map.empty]
  obtain sig1 where run1: "(functions_loop fp (sig_functions pr_sig) Map.empty
                   :: ('v, 'm) error + (string \<rightharpoonup> ('f, 't) namespace_defs)) = Inr sig1"
    and d1': "dom sig1 = dom (Map.empty :: string \<rightharpoonup> ('f, 't) namespace_defs) \<union>
                namespace_of ` fst ` set (sig_functions pr_sig)"
    and f1': "\<And>ns short. lookup_function sig1 ns short =
              (case map_of (rev (sig_functions pr_sig)) (qualified_name ns short) of
                 Some entry \<Rightarrow> Some (fp entry)
               | None \<Rightarrow> lookup_function (Map.empty :: string \<rightharpoonup> ('f, 't) namespace_defs) ns short)"
    and a1': "\<And>ns short. lookup_alias sig1 ns short =
                lookup_alias (Map.empty :: string \<rightharpoonup> ('f, 't) namespace_defs) ns short"
    by blast
  from d1' have d1: "dom sig1 = namespace_of ` fst ` set (sig_functions pr_sig)" by simp
  have f1: "lookup_function sig1 ns short =
              map_option fp (map_of (rev (sig_functions pr_sig)) (qualified_name ns short))" for ns short
    unfolding f1' by (simp add: lookup_function_empty map_option_case split: option.splits)
  have a1: "lookup_alias sig1 ns short = None" for ns short
    unfolding a1' by (simp add: lookup_alias_empty)
  from aliases_loop_result [OF as, of tp sig1]
  obtain sig2 where run2: "(aliases_loop tp (sig_aliases pr_sig) sig1
                   :: ('v, 'm) error + (string \<rightharpoonup> ('f, 't) namespace_defs)) = Inr sig2"
    and d2: "dom sig2 = dom sig1 \<union> namespace_of ` fst ` set (sig_aliases pr_sig)"
    and a2: "\<And>ns short. lookup_alias sig2 ns short =
              (case map_of (rev (sig_aliases pr_sig)) (qualified_name ns short) of
                 Some entry \<Rightarrow> Some (tp entry)
               | None \<Rightarrow> lookup_alias sig1 ns short)"
    and f2: "\<And>ns short. lookup_function sig2 ns short = lookup_function sig1 ns short"
    by blast
  have "(signature_from_proto fp tp pr_sig
            :: ('v, 'm) error + (string \<rightharpoonup> ('f, 't) namespace_defs)) = Inr sig2"
    by (simp add: signature_from_proto_def run1 run2)
  moreover have "dom sig2 = namespace_of ` (fst ` set (sig_functions pr_sig) \<union> fst ` set (sig_aliases pr_sig))"
    by (simp add: d2 d1 image_Un)
  moreover have "lookup_function sig2 ns short =
              map_option fp (map_of (rev (sig_functions pr_sig)) (qualified_name ns short))" for ns short
    by (simp add: f2 f1)
  moreover have "lookup_alias sig2 ns short =
              map_option tp (map_of (rev (sig_aliases pr_sig)) (qualified_name ns short))" for ns short
    by (simp add: a2 a1 map_option_case split: option.splits)
  ultimately show ?thesis by blast
qed

lemma signature_eqI:
  fixes sig sig' :: "string \<rightharpoonup> ('f, 't) namespace_defs"
  assumes d: "dom sig = dom sig'"
      and f: "\<And>ns short. lookup_function sig ns short = lookup_function sig' ns short"
      and a: "\<And>ns short. lookup_alias sig ns short = lookup_alias sig' ns short"
  shows "sig = sig'"
proof (rule ext)
  fix ns
  show "sig ns = sig' ns"
  proof (cases "sig ns")
    case None
    with d show ?thesis by (metis domIff)
  next
    case (Some defs)
    with d obtain defs' where Some': "sig' ns = Some defs'" by (metis domIff not_Some_eq)
    have "defs_functions defs = defs_functions defs'"
      using f [of ns] by (auto simp: lookup_function_def Some Some')
    moreover have "defs_aliases defs = defs_aliases defs'"
      using a [of ns] by (auto simp: lookup_alias_def Some Some')
    ultimately have "defs = defs'" by simp
    with Some Some' show ?thesis by simp
  qed
qed

lemma map_of_rev_distinct:
  "distinct (map fst xs) \<Longrightarrow> map_of (rev xs) = map_of xs"
  by (subst map_of_inject_set) (simp_all add: rev_map [symmetric])

lemma map_of_rev_permuted:
  assumes "mset xs' = mset xs" "distinct (map fst xs)"
  shows "map_of (rev xs') = map_of (rev xs)"
proof -
  from assms(1) have "mset (map fst xs') = mset (map fst xs)" by (metis mset_map)
  with assms(2) have "distinct (map fst xs')" by (metis mset_eq_imp_distinct_iff)
  moreover from assms(1) have "set xs' = set xs" by (rule mset_eq_setD)
  ultimately show ?thesis
    using assms(2) by (simp add: map_of_rev_distinct map_of_inject_set)
qed


text \<open>
  Claim C5, amended. Let every function and alias name of the response contain exactly
  one \<open>/\<close> (the keys of each of the two dictionaries are distinct, as the keys of a
  dictionary are). Then parsing returns a signature \<open>sig\<close>. Its namespaces are the parts
  of the names before the separator. Every function entry is found in the record of
  its namespace under its short name, the part after the separator, and every alias
  entry likewise, so a namespace that occurs among the functions and among the aliases
  has both in its one record. Nothing else is in a record. And the order in which the
  entries arrive does not matter: any response with the same entries in another order
  parses to the same \<open>sig\<close>.
\<close>

theorem signature_merges_namespaces:
  fixes pr_sig :: "('fe, 'te) list_functions_response"
    and fp :: "'fe \<Rightarrow> 'f" and tp :: "'te \<Rightarrow> 't"
  assumes names: "\<forall>name \<in> fst ` set (sig_functions pr_sig) \<union> fst ` set (sig_aliases pr_sig).
                    separators name = 1"
      and dict_f: "distinct (map fst (sig_functions pr_sig))"
      and dict_a: "distinct (map fst (sig_aliases pr_sig))"
  shows "\<exists>sig.
     (signature_from_proto fp tp pr_sig :: ('v, 'm) error + (string \<rightharpoonup> ('f, 't) namespace_defs))
       = Inr sig \<and>
     dom sig = namespace_of ` (fst ` set (sig_functions pr_sig) \<union> fst ` set (sig_aliases pr_sig)) \<and>
     (\<forall>name entry. (name, entry) \<in> set (sig_functions pr_sig) \<longrightarrow>
        (\<exists>defs. sig (namespace_of name) = Some defs \<and>
                defs_functions defs (short_name_of name) = Some (fp entry))) \<and>
     (\<forall>name scheme. (name, scheme) \<in> set (sig_aliases pr_sig) \<longrightarrow>
        (\<exists>defs. sig (namespace_of name) = Some defs \<and>
                defs_aliases defs (short_name_of name) = Some (tp scheme))) \<and>
     (\<forall>ns defs short f. sig ns = Some defs \<and> defs_functions defs short = Some f \<longrightarrow>
        (\<exists>entry. (qualified_name ns short, entry) \<in> set (sig_functions pr_sig) \<and> f = fp entry)) \<and>
     (\<forall>ns defs short t. sig ns = Some defs \<and> defs_aliases defs short = Some t \<longrightarrow>
        (\<exists>scheme. (qualified_name ns short, scheme) \<in> set (sig_aliases pr_sig) \<and> t = tp scheme)) \<and>
     (\<forall>other. mset (sig_functions other) = mset (sig_functions pr_sig) \<and>
              mset (sig_aliases other) = mset (sig_aliases pr_sig) \<longrightarrow>
              (signature_from_proto fp tp other :: ('v, 'm) error + (string \<rightharpoonup> ('f, 't) namespace_defs))
                = Inr sig)"
proof -
  from signature_from_proto_result [OF names, of fp tp]
  obtain sig where run: "(signature_from_proto fp tp pr_sig
                   :: ('v, 'm) error + (string \<rightharpoonup> ('f, 't) namespace_defs)) = Inr sig"
    and d: "dom sig = namespace_of ` (fst ` set (sig_functions pr_sig) \<union> fst ` set (sig_aliases pr_sig))"
    and f': "\<And>ns short. lookup_function sig ns short =
              map_option fp (map_of (rev (sig_functions pr_sig)) (qualified_name ns short))"
    and a': "\<And>ns short. lookup_alias sig ns short =
              map_option tp (map_of (rev (sig_aliases pr_sig)) (qualified_name ns short))"
    by blast
  have f: "lookup_function sig ns short =
              map_option fp (map_of (sig_functions pr_sig) (qualified_name ns short))" for ns short
    by (simp add: f' map_of_rev_distinct [OF dict_f])
  have a: "lookup_alias sig ns short =
              map_option tp (map_of (sig_aliases pr_sig) (qualified_name ns short))" for ns short
    by (simp add: a' map_of_rev_distinct [OF dict_a])
  have fun_in: "\<exists>defs. sig (namespace_of name) = Some defs \<and>
                defs_functions defs (short_name_of name) = Some (fp entry)"
    if "(name, entry) \<in> set (sig_functions pr_sig)" for name entry
  proof -
    from that names have "separators name = 1" by force
    then have "qualified_name (namespace_of name) (short_name_of name) = name"
      by (rule qualified_name_parts)
    moreover from that dict_f have "map_of (sig_functions pr_sig) name = Some entry" by simp
    ultimately have "lookup_function sig (namespace_of name) (short_name_of name) = Some (fp entry)"
      by (simp add: f)
    then show ?thesis by (simp add: lookup_function_def split: option.splits)
  qed
  have alias_in: "\<exists>defs. sig (namespace_of name) = Some defs \<and>
                defs_aliases defs (short_name_of name) = Some (tp scheme)"
    if "(name, scheme) \<in> set (sig_aliases pr_sig)" for name scheme
  proof -
    from that names have "separators name = 1" by force
    then have "qualified_name (namespace_of name) (short_name_of name) = name"
      by (rule qualified_name_parts)
    moreover from that dict_a have "map_of (sig_aliases pr_sig) name = Some scheme" by simp
    ultimately have "lookup_alias sig (namespace_of name) (short_name_of name) = Some (tp scheme)"
      by (simp add: a)
    then show ?thesis by (simp add: lookup_alias_def split: option.splits)
  qed
  have fun_only: "\<exists>entry. (qualified_name ns short, entry) \<in> set (sig_functions pr_sig) \<and> f = fp entry"
    if "sig ns = Some defs" "defs_functions defs short = Some f" for ns defs short f
  proof -
    from that have "lookup_function sig ns short = Some f" by (simp add: lookup_function_def)
    then obtain entry where "map_of (sig_functions pr_sig) (qualified_name ns short) = Some entry"
      and "f = fp entry"
      unfolding f by auto
    then show ?thesis by (auto dest: map_of_SomeD)
  qed
  have alias_only: "\<exists>scheme. (qualified_name ns short, scheme) \<in> set (sig_aliases pr_sig) \<and> t = tp scheme"
    if "sig ns = Some defs" "defs_aliases defs short = Some t" for ns defs short t
  proof -
    from that have "lookup_alias sig ns short = Some t" by (simp add: lookup_alias_def)
    then obtain scheme where "map_of (sig_aliases pr_sig) (qualified_name ns short) = Some scheme"
      and "t = tp scheme"
      unfolding a by auto
    then show ?thesis by (auto dest: map_of_SomeD)
  qed
  have any_order: "(signature_from_proto fp tp other
                      :: ('v, 'm) error + (string \<rightharpoonup> ('f, 't) namespace_defs)) = Inr sig"
    if mf: "mset (sig_functions other) = mset (sig_functions pr_sig)"
      and ma: "mset (sig_aliases other) = mset (sig_aliases pr_sig)" for other
  proof -
    from mf have sf: "set (sig_functions other) = set (sig_functions pr_sig)" by (rule mset_eq_setD)
    from ma have sa: "set (sig_aliases other) = set (sig_aliases pr_sig)" by (rule mset_eq_setD)
    from names have names': "\<forall>name \<in> fst ` set (sig_functions other) \<union> fst ` set (sig_aliases other).
                    separators name = 1"
      by (simp add: sf sa)
    from signature_from_proto_result [OF names', of fp tp]
    obtain sig' where run': "(signature_from_proto fp tp other
                   :: ('v, 'm) error + (string \<rightharpoonup> ('f, 't) namespace_defs)) = Inr sig'"
      and d': "dom sig' = namespace_of ` (fst ` set (sig_functions other) \<union> fst ` set (sig_aliases other))"
      and fo: "\<And>ns short. lookup_function sig' ns short =
              map_option fp (map_of (rev (sig_functions other)) (qualified_name ns short))"
      and ao: "\<And>ns short. lookup_alias sig' ns short =
              map_option tp (map_of (rev (sig_aliases other)) (qualified_name ns short))"
      by blast
    have "sig' = sig"
    proof (rule signature_eqI)
      show "dom sig' = dom sig" by (simp add: d d' sf sa)
      show "lookup_function sig' ns short = lookup_function sig ns short" for ns short
        by (simp add: fo f' map_of_rev_permuted [OF mf dict_f])
      show "lookup_alias sig' ns short = lookup_alias sig ns short" for ns short
        by (simp add: ao a' map_of_rev_permuted [OF ma dict_a])
    qed
    with run' show ?thesis by simp
  qed
  show ?thesis
  proof (rule exI [of _ sig], intro conjI)
    show "(signature_from_proto fp tp pr_sig
            :: ('v, 'm) error + (string \<rightharpoonup> ('f, 't) namespace_defs)) = Inr sig"
      by (rule run)
    show "dom sig = namespace_of ` (fst ` set (sig_functions pr_sig) \<union> fst ` set (sig_aliases pr_sig))"
      by (rule d)
    show "\<forall>name entry. (name, entry) \<in> set (sig_functions pr_sig) \<longrightarrow>
        (\<exists>defs. sig (namespace_of name) = Some defs \<and>
                defs_functions defs (short_name_of name) = Some (fp entry))"
      by (intro allI impI) (rule fun_in)
    show "\<forall>name scheme. (name, scheme) \<in> set (sig_aliases pr_sig) \<longrightarrow>
        (\<exists>defs. sig (namespace_of name) = Some defs \<and>
                defs_aliases defs (short_name_of name) = Some (tp scheme))"
      by (intro allI impI) (rule alias_in)
    show "\<forall>ns defs short f. sig ns = Some defs \<and> defs_functions defs short = Some f \<longrightarrow>
        (\<exists>entry. (qualified_name ns short, entry) \<in> set (sig_functions pr_sig) \<and> f = fp entry)"
      by (intro allI impI, elim conjE) (rule fun_only)
    show "\<forall>ns defs short t. sig ns = Some defs \<and> defs_aliases defs short = Some t \<longrightarrow>
        (\<exists>scheme. (qualified_name ns short, scheme) \<in> set (sig_aliases pr_sig) \<and> t = tp scheme)"
      by (intro allI impI, elim conjE) (rule alias_only)
    show "\<forall>other. mset (sig_functions other) = mset (sig_functions pr_sig) \<and>
              mset (sig_aliases other) = mset (sig_aliases pr_sig) \<longrightarrow>
              (signature_from_proto fp tp other :: ('v, 'm) error + (string \<rightharpoonup> ('f, 't) namespace_defs))
                = Inr sig"
      by (intro allI impI, elim conjE) (rule any_order)
  qed
qed

theorem signature_merges_namespaces_witness:
  "separators ''qubit/h'' = 1 \<and> separators ''qubit/x'' = 1 \<and> separators ''qubit/QubitAlias'' = 1 \<and>
   distinct (map fst (sig_functions qubit_catalogue)) \<and>
   distinct (map fst (sig_aliases qubit_catalogue)) \<and>
   mset (sig_functions qubit_catalogue_reordered) = mset (sig_functions qubit_catalogue) \<and>
   mset (sig_aliases qubit_catalogue_reordered) = mset (sig_aliases qubit_catalogue) \<and>
   (\<exists>sig defs.
      (signature_from_proto Suc Suc qubit_catalogue
         :: (unit, unit) error + (string \<rightharpoonup> (nat, nat) namespace_defs)) = Inr sig \<and>
      dom sig = {''qubit''} \<and> sig ''qubit'' = Some defs \<and>
      defs_functions defs ''h'' = Some 2 \<and> defs_functions defs ''x'' = Some 3 \<and>
      defs_aliases defs ''QubitAlias'' = Some 4 \<and>
      (signature_from_proto Suc Suc qubit_catalogue_reordered
         :: (unit, unit) error + (string \<rightharpoonup> (nat, nat) namespace_defs)) = Inr sig)"
proof -
  have seps: "separators ''qubit/h'' = 1" "separators ''qubit/x'' = 1"
    "separators ''qubit/QubitAlias'' = 1"
    by (simp_all add: separators_def)
  then have names: "\<forall>name \<in> fst ` set (sig_functions qubit_catalogue) \<union>
                       fst ` set (sig_aliases qubit_catalogue). separators name = 1"
    by (simp add: qubit_catalogue_def)
  have dict_f: "distinct (map fst (sig_functions qubit_catalogue))"
    and dict_a: "distinct (map fst (sig_aliases qubit_catalogue))"
    by (simp_all add: qubit_catalogue_def)
  have mf: "mset (sig_functions qubit_catalogue_reordered) = mset (sig_functions qubit_catalogue)"
    and ma: "mset (sig_aliases qubit_catalogue_reordered) = mset (sig_aliases qubit_catalogue)"
    by (simp_all add: qubit_catalogue_def qubit_catalogue_reordered_def)
  from signature_merges_namespaces [OF names dict_f dict_a, of Suc Suc]
  obtain sig where run: "(signature_from_proto Suc Suc qubit_catalogue
         :: (unit, unit) error + (string \<rightharpoonup> (nat, nat) namespace_defs)) = Inr sig"
    and d: "dom sig = namespace_of ` (fst ` set (sig_functions qubit_catalogue) \<union>
                                      fst ` set (sig_aliases qubit_catalogue))"
    and fun_in: "\<forall>name entry. (name, entry) \<in> set (sig_functions qubit_catalogue) \<longrightarrow>
        (\<exists>defs. sig (namespace_of name) = Some defs \<and>
                defs_functions defs (short_name_of name) = Some (Suc entry))"
    and alias_in: "\<forall>name scheme. (name, scheme) \<in> set (sig_aliases qubit_catalogue) \<longrightarrow>
        (\<exists>defs. sig (namespace_of name) = Some defs \<and>
                defs_aliases defs (short_name_of name) = Some (Suc scheme))"
    and any_order: "\<forall>other. mset (sig_functions other) = mset (sig_functions qubit_catalogue) \<and>
              mset (sig_aliases other) = mset (sig_aliases qubit_catalogue) \<longrightarrow>
              (signature_from_proto Suc Suc other
                 :: (unit, unit) error + (string \<rightharpoonup> (nat, nat) namespace_defs)) = Inr sig"
    by (elim exE conjE) (rule that)
  have dom: "dom sig = {''qubit''}"
    by (simp add: d qubit_catalogue_def namespace_of_def)
  then have "''qubit'' \<in> dom sig" by (simp only: insertI1)
  then obtain defs where defs: "sig ''qubit'' = Some defs" by (auto simp only: domIff not_None_eq)
  from fun_in [rule_format, of "''qubit/h''" 1] defs
  have h: "defs_functions defs ''h'' = Some 2"
    by (simp add: qubit_catalogue_def namespace_of_def short_name_of_def)
  from fun_in [rule_format, of "''qubit/x''" 2] defs
  have x: "defs_functions defs ''x'' = Some 3"
    by (simp add: qubit_catalogue_def namespace_of_def short_name_of_def)
  from alias_in [rule_format, of "''qubit/QubitAlias''" 3] defs
  have al: "defs_aliases defs ''QubitAlias'' = Some 4"
    by (simp add: qubit_catalogue_def namespace_of_def short_name_of_def)
  from any_order [rule_format, of qubit_catalogue_reordered] mf ma
  have re: "(signature_from_proto Suc Suc qubit_catalogue_reordered
         :: (unit, unit) error + (string \<rightharpoonup> (nat, nat) namespace_defs)) = Inr sig"
    by simp
  from run dom defs h x al re
  have "\<exists>sig defs.
      (signature_from_proto Suc Suc qubit_catalogue
         :: (unit, unit) error + (string \<rightharpoonup> (nat, nat) namespace_defs)) = Inr sig \<and>
      dom sig = {''qubit''} \<and> sig ''qubit'' = Some defs \<and>
      defs_functions defs ''h'' = Some 2 \<and> defs_functions defs ''x'' = Some 3 \<and>
      defs_aliases defs ''QubitAlias'' = Some 4 \<and>
      (signature_from_proto Suc Suc qubit_catalogue_reordered
         :: (unit, unit) error + (string \<rightharpoonup> (nat, nat) namespace_defs)) = Inr sig"
    by (intro exI [of _ sig] exI [of _ defs] conjI)
  with seps dict_f dict_a mf ma show ?thesis by (intro conjI)
qed

text \<open>
  The claim as it was stated, for every response, fails on a name without a separator
  and on a name with two: parsing raises \<^verbatim>\<open>ValueError\<close> and returns no signature.
\<close>

theorem signature_ill_formed_name_counterexample:
  "(signature_from_proto Suc Suc bare_catalogue
      :: (unit, unit) error + (string \<rightharpoonup> (nat, nat) namespace_defs)) = Inl ValueError \<and>
   (signature_from_proto Suc Suc nested_catalogue
      :: (unit, unit) error + (string \<rightharpoonup> (nat, nat) namespace_defs)) = Inl ValueError"
  by (simp add: signature_from_proto_def bare_catalogue_def nested_catalogue_def numeral_2_eq_2)

text \<open>
  Claim C10. Parsing is total exactly on the responses whose names all contain one
  separator: if some function or alias name contains no \<open>/\<close>, or two or more, the
  unpacking of the split name raises \<^verbatim>\<open>ValueError\<close> and no signature is produced; if
  every name contains exactly one, a signature is produced.
\<close>

theorem signature_needs_one_separator:
  fixes pr_sig :: "('fe, 'te) list_functions_response"
    and fp :: "'fe \<Rightarrow> 'f" and tp :: "'te \<Rightarrow> 't"
  shows "((\<exists>name \<in> fst ` set (sig_functions pr_sig) \<union> fst ` set (sig_aliases pr_sig).
             separators name \<noteq> 1) \<longrightarrow>
          (signature_from_proto fp tp pr_sig :: ('v, 'm) error + (string \<rightharpoonup> ('f, 't) namespace_defs))
            = Inl ValueError) \<and>
         ((\<forall>name \<in> fst ` set (sig_functions pr_sig) \<union> fst ` set (sig_aliases pr_sig).
             separators name = 1) \<longrightarrow>
          (\<exists>sig. (signature_from_proto fp tp pr_sig
                     :: ('v, 'm) error + (string \<rightharpoonup> ('f, 't) namespace_defs)) = Inr sig))"
proof (intro conjI impI)
  assume bad: "\<exists>name \<in> fst ` set (sig_functions pr_sig) \<union> fst ` set (sig_aliases pr_sig).
             separators name \<noteq> 1"
  show "(signature_from_proto fp tp pr_sig :: ('v, 'm) error + (string \<rightharpoonup> ('f, 't) namespace_defs))
            = Inl ValueError"
  proof (cases "\<exists>name \<in> fst ` set (sig_functions pr_sig). separators name \<noteq> 1")
    case True
    then show ?thesis
      by (simp add: signature_from_proto_def functions_loop_bad_name)
  next
    case False
    with bad have a: "\<exists>name \<in> fst ` set (sig_aliases pr_sig). separators name \<noteq> 1" by blast
    from False have "\<forall>name \<in> fst ` set (sig_functions pr_sig). separators name = 1" by blast
    from functions_loop_result [OF this, of fp Map.empty]
    obtain sig1 where "(functions_loop fp (sig_functions pr_sig) Map.empty
                   :: ('v, 'm) error + (string \<rightharpoonup> ('f, 't) namespace_defs)) = Inr sig1"
      by blast
    then show ?thesis
      by (simp add: signature_from_proto_def aliases_loop_bad_name [OF a])
  qed
next
  assume "\<forall>name \<in> fst ` set (sig_functions pr_sig) \<union> fst ` set (sig_aliases pr_sig).
             separators name = 1"
  from signature_from_proto_result [OF this, of fp tp]
  show "\<exists>sig. (signature_from_proto fp tp pr_sig
                     :: ('v, 'm) error + (string \<rightharpoonup> ('f, 't) namespace_defs)) = Inr sig"
    by blast
qed


theorem signature_needs_one_separator_witness:
  "separators ''h'' = 0 \<and>
   (signature_from_proto Suc Suc bare_catalogue
      :: (unit, unit) error + (string \<rightharpoonup> (nat, nat) namespace_defs)) = Inl ValueError \<and>
   separators ''pytket/circuit/Box'' = 2 \<and>
   (signature_from_proto Suc Suc nested_catalogue
      :: (unit, unit) error + (string \<rightharpoonup> (nat, nat) namespace_defs)) = Inl ValueError \<and>
   separators ''qubit/h'' = 1 \<and> separators ''qubit/x'' = 1 \<and> separators ''qubit/QubitAlias'' = 1 \<and>
   (\<exists>sig. (signature_from_proto Suc Suc qubit_catalogue
      :: (unit, unit) error + (string \<rightharpoonup> (nat, nat) namespace_defs)) = Inr sig)"
proof -
  have seps: "separators ''h'' = 0" "separators ''pytket/circuit/Box'' = 2"
    "separators ''qubit/h'' = 1" "separators ''qubit/x'' = 1" "separators ''qubit/QubitAlias'' = 1"
    by (simp_all add: separators_def)
  have bare: "\<exists>name \<in> fst ` set (sig_functions bare_catalogue) \<union> fst ` set (sig_aliases bare_catalogue).
             separators name \<noteq> 1"
    using seps by (simp add: bare_catalogue_def)
  have nested: "\<exists>name \<in> fst ` set (sig_functions nested_catalogue) \<union>
                    fst ` set (sig_aliases nested_catalogue). separators name \<noteq> 1"
    using seps by (simp add: nested_catalogue_def)
  have good: "\<forall>name \<in> fst ` set (sig_functions qubit_catalogue) \<union>
                    fst ` set (sig_aliases qubit_catalogue). separators name = 1"
    using seps by (simp add: qubit_catalogue_def)
  have r1: "(signature_from_proto Suc Suc bare_catalogue
      :: (unit, unit) error + (string \<rightharpoonup> (nat, nat) namespace_defs)) = Inl ValueError"
    using signature_needs_one_separator [of bare_catalogue Suc Suc] bare by blast
  have r2: "(signature_from_proto Suc Suc nested_catalogue
      :: (unit, unit) error + (string \<rightharpoonup> (nat, nat) namespace_defs)) = Inl ValueError"
    using signature_needs_one_separator [of nested_catalogue Suc Suc] nested by blast
  have r3: "\<exists>sig. (signature_from_proto Suc Suc qubit_catalogue
      :: (unit, unit) error + (string \<rightharpoonup> (nat, nat) namespace_defs)) = Inr sig"
    using signature_needs_one_separator [of qubit_catalogue Suc Suc] good by blast
  from seps r1 r2 r3 show ?thesis by (intro conjI)
qed

end
